theory Spec2Isabelle
  imports Complex_Main "HOL-Library.AList" "HOL-Library.Multiset"
begin

section \<open>JavaScript values used by the audio layer\<close>

text \<open>
  The program computes with JavaScript numbers. A finite number is modelled as an exact
  real (rounding of IEEE doubles and overflow are not modelled); \<open>Infinity\<close> stands for
  the infinity of either sign, and \<open>NaN\<close> is what a failed \<open>parseInt\<close> or a
  coercion of \<open>undefined\<close> produces.
\<close>

datatype jsnum = Finite real | Infinity | NaN

datatype error = TypeError | RangeError | InvalidStateError

fun jsQuotient :: "jsnum \<Rightarrow> jsnum \<Rightarrow> jsnum" where
  "jsQuotient (Finite a) (Finite b) =
     (if b = 0 then (if a = 0 then NaN else Infinity) else Finite (a / b))"
| "jsQuotient (Finite a) Infinity = Finite 0"
| "jsQuotient Infinity (Finite b) = Infinity"
| "jsQuotient Infinity Infinity = NaN"
| "jsQuotient NaN y = NaN"
| "jsQuotient x NaN = NaN"

fun jsTimes :: "jsnum \<Rightarrow> jsnum \<Rightarrow> jsnum" where
  "jsTimes (Finite a) (Finite b) = Finite (a * b)"
| "jsTimes (Finite a) Infinity = (if a = 0 then NaN else Infinity)"
| "jsTimes Infinity (Finite b) = (if b = 0 then NaN else Infinity)"
| "jsTimes Infinity Infinity = Infinity"
| "jsTimes NaN y = NaN"
| "jsTimes x NaN = NaN"

subsection \<open>\<open>parseInt\<close> with no radix argument\<close>

definition isWhiteSpace :: "char \<Rightarrow> bool" where
  "isWhiteSpace c = ((of_char c :: nat) \<in> {9, 10, 11, 12, 13, 32})"

definition digitOf :: "nat \<Rightarrow> char \<Rightarrow> nat option" where
  "digitOf radix c =
     (let n = (of_char c :: nat);
          v = (if 48 \<le> n \<and> n \<le> 57 then Some (n - 48)
               else if 97 \<le> n \<and> n \<le> 122 then Some (n - 87)
               else if 65 \<le> n \<and> n \<le> 90 then Some (n - 55)
               else None)
      in case v of None \<Rightarrow> None | Some d \<Rightarrow> if d < radix then Some d else None)"

text \<open>
  The longest prefix of digits is read; \<open>None\<close> as the accumulator means that no digit
  has been read yet, and is the result \<open>NaN\<close> when the prefix is empty.
\<close>

fun parseDigits :: "nat \<Rightarrow> nat option \<Rightarrow> string \<Rightarrow> nat option" where
  "parseDigits radix acc [] = acc"
| "parseDigits radix acc (c # cs) =
     (case digitOf radix c of
        None \<Rightarrow> acc
      | Some d \<Rightarrow>
          parseDigits radix (Some (radix * (case acc of None \<Rightarrow> 0 | Some a \<Rightarrow> a) + d)) cs)"

fun stripSign :: "string \<Rightarrow> int \<times> string" where
  "stripSign [] = (1, [])"
| "stripSign (c # cs) =
     (if c = CHR ''-'' then (- 1, cs) else if c = CHR ''+'' then (1, cs) else (1, c # cs))"

fun stripRadix :: "string \<Rightarrow> nat \<times> string" where
  "stripRadix (c # x # cs) =
     (if c = CHR ''0'' \<and> (x = CHR ''x'' \<or> x = CHR ''X'') then (16, cs) else (10, c # x # cs))"
| "stripRadix cs = (10, cs)"

text \<open>\<open>parseInt(s)\<close>: leading white space, a sign, a hexadecimal prefix, then digits.
  \<open>None\<close> is \<open>NaN\<close>.\<close>

definition parseInt :: "string \<Rightarrow> int option" where
  "parseInt s =
     (let (sign, u) = stripSign (dropWhile isWhiteSpace s);
          (radix, w) = stripRadix u
      in map_option (\<lambda>n. sign * int n) (parseDigits radix None w))"

text \<open>A gate note value is a string token (\<open>"8"\<close>, \<open>"4T"\<close>) or, from the legacy
  \<open>updateGateSpeed\<close>, a number.\<close>

datatype note_value = Str string | Num real

definition endsWith :: "string \<Rightarrow> char \<Rightarrow> bool" where
  "endsWith s c = (s \<noteq> [] \<and> last s = c)"

section \<open>The gate scheduler: note durations\<close>

text \<open>
  \<^verbatim>\<open>
  function getNoteDuration(noteValue, bpm) {
      const beatDuration = 60.0 / bpm;
      if (typeof noteValue === 'string' && noteValue.endsWith('T')) {
          const baseValue = parseInt(noteValue.slice(0, -1));
          if (baseValue === 8) { return beatDuration / 3; }
          else if (baseValue === 4) { return beatDuration * (2.0 / 3.0); }
          else if (baseValue === 2) { return beatDuration * (4.0 / 3.0); }
          else if (baseValue === 1) { return beatDuration * (8.0 / 3.0); }
      } else {
          const numValue = typeof noteValue === 'string' ? parseInt(noteValue) : noteValue;
          return beatDuration / numValue;
      }
      return beatDuration;
  }
  \<close>
\<close>

definition getNoteDuration :: "note_value \<Rightarrow> real \<Rightarrow> jsnum" where
  "getNoteDuration noteValue bpm =
     (let beatDuration = jsQuotient (Finite 60) (Finite bpm) in
      case noteValue of
        Str s \<Rightarrow>
          if endsWith s CHR ''T'' then
            (let baseValue = parseInt (butlast s) in
             if baseValue = Some 8 then jsQuotient beatDuration (Finite 3)
             else if baseValue = Some 4 then jsTimes beatDuration (Finite (2 / 3))
             else if baseValue = Some 2 then jsTimes beatDuration (Finite (4 / 3))
             else if baseValue = Some 1 then jsTimes beatDuration (Finite (8 / 3))
             else beatDuration)
          else
            (case parseInt s of
               None \<Rightarrow> jsQuotient beatDuration NaN
             | Some numValue \<Rightarrow> jsQuotient beatDuration (Finite (real_of_int numValue)))
      | Num numValue \<Rightarrow> jsQuotient beatDuration (Finite numValue))"

section \<open>The ratio and scale engine\<close>

text \<open>
  A table entry is a number or an array: a ratio is the array \<open>[numerator, denominator]\<close>
  and a triad is an array of ratios.
\<close>

datatype jsratio = RatioNum real | RatioArr "jsratio list"

text \<open>The coercion of a table value to a number, as the division \<open>ratio[0] / ratio[1]\<close>
  applies it: an array converts through its string form, so only an array of at most one
  element can give a number.\<close>

fun toNumber :: "jsratio \<Rightarrow> jsnum" where
  "toNumber (RatioNum r) = Finite r"
| "toNumber (RatioArr []) = Finite 0"
| "toNumber (RatioArr [x]) = toNumber x"
| "toNumber (RatioArr (x # y # zs)) = NaN"

text \<open>\<open>xs[i]\<close> as a number; reading past the end gives \<open>undefined\<close>, which coerces to
  \<open>NaN\<close>.\<close>

definition element :: "jsratio list \<Rightarrow> nat \<Rightarrow> jsnum" where
  "element xs i = (if i < length xs then toNumber (xs ! i) else NaN)"

record scale_note =
  note_name :: string
  note_key :: string
  note_ratio :: jsratio

definition MAJOR_SCALE_RATIOS :: "scale_note list" where
  "MAJOR_SCALE_RATIOS =
     [\<lparr>note_name = ''Lower La'', note_key = ''a'', note_ratio = RatioArr [RatioNum 5, RatioNum 6]\<rparr>,
      \<lparr>note_name = ''Lower Ti'', note_key = ''s'', note_ratio = RatioArr [RatioNum 15, RatioNum 16]\<rparr>,
      \<lparr>note_name = ''Do'', note_key = ''d'', note_ratio = RatioArr [RatioNum 1, RatioNum 1]\<rparr>,
      \<lparr>note_name = ''Re'', note_key = ''f'', note_ratio = RatioArr [RatioNum 9, RatioNum 8]\<rparr>,
      \<lparr>note_name = ''Mi'', note_key = ''g'', note_ratio = RatioArr [RatioNum 5, RatioNum 4]\<rparr>,
      \<lparr>note_name = ''Fa'', note_key = ''h'', note_ratio = RatioArr [RatioNum 4, RatioNum 3]\<rparr>,
      \<lparr>note_name = ''So'', note_key = ''j'', note_ratio = RatioArr [RatioNum 3, RatioNum 2]\<rparr>,
      \<lparr>note_name = ''La'', note_key = ''k'', note_ratio = RatioArr [RatioNum 5, RatioNum 3]\<rparr>]"

definition CHORD_INTERVALS_major :: jsratio where
  "CHORD_INTERVALS_major =
     RatioArr [RatioArr [RatioNum 1, RatioNum 1],
               RatioArr [RatioNum 5, RatioNum 4],
               RatioArr [RatioNum 3, RatioNum 2]]"

text \<open>The object \<open>CHORD_INTERVALS\<close>, with its own properties in declaration order. Names
  inherited from \<open>Object.prototype\<close> are not modelled.\<close>

definition CHORD_INTERVALS :: "(string \<times> jsratio) list" where
  "CHORD_INTERVALS =
     [(''major'', CHORD_INTERVALS_major),
      (''minor'', RatioArr [RatioArr [RatioNum 1, RatioNum 1],
                            RatioArr [RatioNum 6, RatioNum 5],
                            RatioArr [RatioNum 3, RatioNum 2]]),
      (''seventh'', RatioArr [RatioNum 15, RatioNum 8]),
      (''minorSeventh'', RatioArr [RatioNum 9, RatioNum 5]),
      (''ninth'', RatioArr [RatioNum 9, RatioNum 4]),
      (''eleventh'', RatioArr [RatioNum 11, RatioNum 4]),
      (''thirteenth'', RatioArr [RatioNum 5, RatioNum 3])]"

text \<open>
  \<^verbatim>\<open>
  function getFrequencyFromRatio(ratio, rootFreq = ROOT_FREQUENCY) {
      if (Array.isArray(ratio)) { return rootFreq * (ratio[0] / ratio[1]); }
      return rootFreq * ratio;
  }
  \<close>
\<close>

definition getFrequencyFromRatio :: "jsratio \<Rightarrow> jsnum \<Rightarrow> jsnum" where
  "getFrequencyFromRatio ratio rootFreq =
     (case ratio of
        RatioArr xs \<Rightarrow> jsTimes rootFreq (jsQuotient (element xs 0) (element xs 1))
      | RatioNum r \<Rightarrow> jsTimes rootFreq (Finite r))"

text \<open>
  \<open>getScaleNoteFrequency(noteIndex, octave)\<close> reads \<open>MAJOR_SCALE_RATIOS[noteIndex].ratio\<close>:
  past the end of the table the entry is \<open>undefined\<close> and the property access throws a
  \<open>TypeError\<close>. The first argument is the current value of the global \<open>ROOT_FREQUENCY\<close>.
\<close>

definition getScaleNoteFrequency :: "real \<Rightarrow> nat \<Rightarrow> int \<Rightarrow> error + jsnum" where
  "getScaleNoteFrequency rootHz noteIndex octave =
     (if noteIndex < length MAJOR_SCALE_RATIOS then
        (let note = MAJOR_SCALE_RATIOS ! noteIndex;
             baseFreq = getFrequencyFromRatio (note_ratio note) (Finite rootHz)
         in Inr (jsTimes baseFreq (Finite (2 powi octave))))
      else Inl TypeError)"

text \<open>The second loop of \<open>buildChordFrequencies\<close>: one frequency is pushed for every
  extension name that the table answers with a truthy value.\<close>

fun addExtensions :: "jsnum \<Rightarrow> string list \<Rightarrow> jsnum list" where
  "addExtensions rootFreq [] = []"
| "addExtensions rootFreq (ext # extensions) =
     (case map_of CHORD_INTERVALS ext of
        None \<Rightarrow> addExtensions rootFreq extensions
      | Some v \<Rightarrow> getFrequencyFromRatio v rootFreq # addExtensions rootFreq extensions)"

text \<open>
  \<^verbatim>\<open>
  function buildChordFrequencies(rootNoteIndex, chordType = 'major', extensions = []) {
      const rootFreq = getScaleNoteFrequency(rootNoteIndex, 0);
      const intervals = CHORD_INTERVALS[chordType] || CHORD_INTERVALS.major;
      const frequencies = [];
      intervals.forEach(interval => {
          frequencies.push(getFrequencyFromRatio(interval, rootFreq));
      });
      extensions.forEach(ext => {
          if (CHORD_INTERVALS[ext]) {
              frequencies.push(getFrequencyFromRatio(CHORD_INTERVALS[ext], rootFreq));
          }
      });
      return frequencies;
  }
  \<close>
\<close>

definition buildChordFrequencies :: "real \<Rightarrow> nat \<Rightarrow> string \<Rightarrow> string list \<Rightarrow> error + jsnum list" where
  "buildChordFrequencies rootHz rootNoteIndex chordType extensions =
     (case getScaleNoteFrequency rootHz rootNoteIndex 0 of
        Inl e \<Rightarrow> Inl e
      | Inr rootFreq \<Rightarrow>
          (case (case map_of CHORD_INTERVALS chordType of
                   None \<Rightarrow> CHORD_INTERVALS_major
                 | Some v \<Rightarrow> v) of
             RatioNum r \<Rightarrow> Inl TypeError
           | RatioArr intervals \<Rightarrow>
               Inr (map (\<lambda>interval. getFrequencyFromRatio interval rootFreq) intervals
                    @ addExtensions rootFreq extensions)))"

definition scaleDegreeChordTypes :: "string list" where
  "scaleDegreeChordTypes =
     [''minor'', ''minor'', ''major'', ''minor'', ''minor'', ''major'', ''major'', ''minor'']"





section \<open>The platform\<close>

text \<open>
  What the program consumes from the browser: the sample rate of the audio context, the
  successive results of \<open>Math.random()\<close> (the \<open>n\<close>-th call returns \<open>random n\<close>, a
  number in \<open>[0, 1)\<close>), and the voice factory, which may refuse a frequency by throwing
  (\<open>createFails subBass frequency\<close> is the error thrown when creating a sustained or
  a sub-bass voice at that frequency, if any).
\<close>

record platform =
  sampleRate :: real
  random :: "nat \<Rightarrow> real"
  createFails :: "bool \<Rightarrow> jsnum \<Rightarrow> error option"

section \<open>The gate scheduler\<close>

subsection \<open>Shuffling\<close>

text \<open>
  \<^verbatim>\<open>
  function shuffleArray(array) {
      const shuffled = [...array];
      for (let i = shuffled.length - 1; i > 0; i--) {
          const j = Math.floor(Math.random() * (i + 1));
          [shuffled[i], shuffled[j]] = [shuffled[j], shuffled[i]];
      }
      return shuffled;
  }
  \<close>
  The loop runs \<open>i\<close> from the last index down to 1; \<open>calls\<close> counts the calls of
  \<open>Math.random()\<close> made before. Since \<open>Math.random()\<close> lies in \<open>[0, 1)\<close>, the index
  \<open>j\<close> lies in \<open>0..i\<close> and both reads and writes stay inside the array.
\<close>

definition randomIndex :: "real \<Rightarrow> nat \<Rightarrow> nat" where
  "randomIndex r i = nat \<lfloor>r * real (i + 1)\<rfloor>"

fun shuffleLoop :: "(nat \<Rightarrow> real) \<Rightarrow> nat \<Rightarrow> 'a list \<Rightarrow> nat \<Rightarrow> 'a list" where
  "shuffleLoop rnd calls shuffled 0 = shuffled"
| "shuffleLoop rnd calls shuffled (Suc n) =
     (let i = Suc n;
          j = randomIndex (rnd calls) i
      in shuffleLoop rnd (Suc calls) (shuffled[i := shuffled ! j, j := shuffled ! i]) n)"

definition shuffleArray :: "(nat \<Rightarrow> real) \<Rightarrow> nat \<Rightarrow> 'a list \<Rightarrow> 'a list" where
  "shuffleArray rnd calls array = shuffleLoop rnd calls array (length array - 1)"

subsection \<open>The gain curve of one cycle\<close>

text \<open>
  \<^verbatim>\<open>
  for (let i = 0; i < curveLength; i++) {
      const t = i / sampleRate;
      const omega = 2 * pi * fundamentalFreq;
      const term1 = Math.sin(omega * t);
      const term3 = (1/3) * Math.sin(3 * omega * t);
      const term5 = (1/5) * Math.sin(5 * omega * t);
      const squareApprox = (4 / pi) * (term1 + term3 + term5);
      const clampedApprox = Math.max(-1, Math.min(1, squareApprox));
      const normalized = (clampedApprox + 1) / 2;
      const gainValue = (1.0 - duckingAmount) + (duckingAmount * normalized);
      curve[i] = Math.max(0.0, Math.min(1.0, gainValue));
  }
  \<close>
\<close>

definition gateCurveSample :: "real \<Rightarrow> real \<Rightarrow> real \<Rightarrow> nat \<Rightarrow> real" where
  "gateCurveSample gateSpeed rate duckingAmount i =
     (let fundamentalFreq = 1 / gateSpeed;
          t = real i / rate;
          omega = 2 * pi * fundamentalFreq;
          term1 = sin (omega * t);
          term3 = (1 / 3) * sin (3 * omega * t);
          term5 = (1 / 5) * sin (5 * omega * t);
          squareApprox = (4 / pi) * (term1 + term3 + term5);
          clampedApprox = max (- 1) (min 1 squareApprox);
          normalized = (clampedApprox + 1) / 2;
          gainValue = (1 - duckingAmount) + (duckingAmount * normalized)
      in max 0 (min 1 gainValue))"

definition curveLength :: "real \<Rightarrow> real \<Rightarrow> int" where
  "curveLength gateSpeed rate = \<lceil>gateSpeed * rate\<rceil>"

definition gateCurve :: "real \<Rightarrow> real \<Rightarrow> real \<Rightarrow> real list" where
  "gateCurve gateSpeed rate duckingAmount =
     map (gateCurveSample gateSpeed rate duckingAmount) [0 ..< nat (curveLength gateSpeed rate)]"

subsection \<open>The gate state\<close>

text \<open>
  The module-level gate variables, the gain parameter \<open>gateGain.gain\<close> (its value as last
  set and the value curve scheduled on it, with the curve's duration in seconds), the
  timer queue of the runtime (handle and delay in milliseconds of every pending timer; all
  of them call \<open>scheduleNextGateCycle\<close>), the tempo \<open>window.bpm\<close>, the index last passed
  to \<open>window.updatePlayingSequenceIndex\<close>, and the number of calls of \<open>Math.random()\<close>
  so far. The variable \<open>gateInterval\<close> is never assigned and is left out. While a curve
  is scheduled the gain follows the curve; \<open>gainValue\<close> is the value given to the last
  \<open>setValueAtTime\<close>, and the value at which the gain rests after a curve is cancelled
  with no \<open>setValueAtTime\<close> following is not modelled.
\<close>

record gate =
  gateAmount :: real
  gateSpeedSequence :: "note_value list"
  gateBaseSequence :: "note_value list"
  gateSequenceIndex :: nat
  gateRandomEnabled :: bool
  gateTimeout :: "nat option"
  timers :: "(nat \<times> real) list"
  timerCount :: nat
  gainValue :: real
  gainCurve :: "(real list \<times> real) option"
  window_bpm :: "real option"
  playingIndex :: int
  randomCalls :: nat

definition initialGate :: gate where
  "initialGate =
     \<lparr>gateAmount = 0, gateSpeedSequence = [Str ''4''], gateBaseSequence = [Str ''4''],
      gateSequenceIndex = 0, gateRandomEnabled = False, gateTimeout = None, timers = [],
      timerCount = 0, gainValue = 1, gainCurve = None, window_bpm = None, playingIndex = - 1,
      randomCalls = 0\<rparr>"

text \<open>\<open>setTimeout\<close> hands out a fresh positive handle; \<open>clearTimeout\<close> removes the timer
  with the given handle, if it is still pending.\<close>

definition setTimeout :: "real \<Rightarrow> gate \<Rightarrow> nat \<times> gate" where
  "setTimeout delay st =
     (let handle = Suc (timerCount st)
      in (handle, st\<lparr>timers := timers st @ [(handle, delay)], timerCount := handle\<rparr>))"


text \<open>\<open>window.bpm || 120\<close>: an unset or zero tempo is replaced by 120.\<close>

definition currentBpm :: "gate \<Rightarrow> real" where
  "currentBpm st = (case window_bpm st of None \<Rightarrow> 120 | Some b \<Rightarrow> if b = 0 then 120 else b)"

text \<open>Lines 575 to 578 of \<open>scheduleNextGateCycle\<close>: in random mode the working sequence
  is a fresh shuffle of the base sequence and the cursor returns to 0.\<close>

definition reshuffle :: "platform \<Rightarrow> gate \<Rightarrow> gate" where
  "reshuffle p st =
     (if gateRandomEnabled st \<and> length (gateBaseSequence st) > 0 then
        st\<lparr>gateSpeedSequence := shuffleArray (random p) (randomCalls st) (gateBaseSequence st),
           gateSequenceIndex := 0,
           randomCalls := randomCalls st + (length (gateBaseSequence st) - 1)\<rparr>
      else st)"

text \<open>Line 581: \<open>gateSpeedSequence[gateSequenceIndex]\<close>, \<open>undefined\<close> past the end.\<close>

definition currentNoteValue :: "gate \<Rightarrow> note_value option" where
  "currentNoteValue st =
     (if gateSequenceIndex st < length (gateSpeedSequence st)
      then Some (gateSpeedSequence st ! gateSequenceIndex st) else None)"

text \<open>Line 587; \<open>getNoteDuration(undefined, bpm)\<close> divides the beat by \<open>undefined\<close>.\<close>

definition cycleDuration :: "gate \<Rightarrow> jsnum" where
  "cycleDuration st =
     (case currentNoteValue st of
        None \<Rightarrow> jsQuotient (jsQuotient (Finite 60) (Finite (currentBpm st))) NaN
      | Some noteValue \<Rightarrow> getNoteDuration noteValue (currentBpm st))"

text \<open>\<open>gateBaseSequence.indexOf(v)\<close>, \<open>-1\<close> when absent.\<close>

fun indexOf :: "'a list \<Rightarrow> 'a \<Rightarrow> int" where
  "indexOf [] v = - 1"
| "indexOf (x # xs) v = (if x = v then 0 else (let k = indexOf xs v in if k < 0 then - 1 else k + 1))"

text \<open>
  The inner function \<open>scheduleGateCycle\<close>: the curve is allocated and filled, the
  scheduled values are cancelled and the curve is set for one cycle. The allocation
  throws a \<open>RangeError\<close> for an infinite or negative length; \<open>setValueCurveAtTime\<close>
  throws for a duration that is not a finite positive number and for a curve of fewer
  than two samples.
\<close>

definition scheduleGateCycle :: "platform \<Rightarrow> jsnum \<Rightarrow> gate \<Rightarrow> (error + unit) \<times> gate" where
  "scheduleGateCycle p gateSpeed st =
     (let duckingAmount = gateAmount st / 100 in
      case gateSpeed of
        Infinity \<Rightarrow> (Inl RangeError, st)
      | NaN \<Rightarrow> (Inl TypeError, st\<lparr>gainCurve := None\<rparr>)
      | Finite d \<Rightarrow>
          if curveLength d (sampleRate p) < 0 then (Inl RangeError, st)
          else if d \<le> 0 then (Inl RangeError, st\<lparr>gainCurve := None\<rparr>)
          else if curveLength d (sampleRate p) < 2 then (Inl InvalidStateError, st\<lparr>gainCurve := None\<rparr>)
          else (Inr (), st\<lparr>gainCurve := Some (gateCurve d (sampleRate p) duckingAmount, d)\<rparr>))"

text \<open>
  \<^verbatim>\<open>
  function scheduleNextGateCycle() {
      if (gateAmount === 0 || !gateSpeedSequence || gateSpeedSequence.length === 0) { return; }
      if (gateRandomEnabled && gateBaseSequence.length > 0) {
          gateSpeedSequence = shuffleArray(gateBaseSequence);
          gateSequenceIndex = 0;
      }
      const noteValue = gateSpeedSequence[gateSequenceIndex];
      const bpm = window.bpm || 120;
      const gateSpeed = getNoteDuration(noteValue, bpm);
      ...
      scheduleGateCycle();
      if (window.updatePlayingSequenceIndex) { ... }
      gateSequenceIndex = (gateSequenceIndex + 1) % gateSpeedSequence.length;
      gateTimeout = setTimeout(() => { scheduleNextGateCycle(); }, gateSpeed * 1000);
  }
  \<close>
  An exception of \<open>scheduleGateCycle\<close> leaves the function before the cursor moves and
  before a timer is set.
\<close>

definition scheduleNextGateCycle :: "platform \<Rightarrow> gate \<Rightarrow> (error + unit) \<times> gate" where
  "scheduleNextGateCycle p st =
     (if gateAmount st = 0 \<or> length (gateSpeedSequence st) = 0 then (Inr (), st)
      else
        (let st1 = reshuffle p st;
             gateSpeed = cycleDuration st1
         in case scheduleGateCycle p gateSpeed st1 of
              (Inl e, st2) \<Rightarrow> (Inl e, st2)
            | (Inr u, st2) \<Rightarrow>
                (let st3 = st2\<lparr>playingIndex :=
                              (if gateRandomEnabled st2 then
                                 (case currentNoteValue st2 of
                                    None \<Rightarrow> - 1
                                  | Some v \<Rightarrow> indexOf (gateBaseSequence st2) v)
                               else int (gateSequenceIndex st2))\<rparr>;
                     st4 = st3\<lparr>gateSequenceIndex :=
                              (gateSequenceIndex st3 + 1) mod length (gateSpeedSequence st3)\<rparr>;
                     delay = (case gateSpeed of Finite d \<Rightarrow> d * 1000 | _ \<Rightarrow> 0);
                     (handle, st5) = setTimeout delay st4
                 in (Inr (), st5\<lparr>gateTimeout := Some handle\<rparr>))))"








section \<open>The note and chord registry\<close>

text \<open>
  A voice is the object returned by \<open>createSustainedNote\<close> or \<open>createSubBass\<close>: its
  oscillator node, identified by the order of creation, the frequency recorded as
  \<open>baseFrequency\<close>, and whether it is the sub-bass voice. Gain envelopes and panning
  are sound design and are left out.
\<close>

record voice =
  oscillator :: nat
  baseFrequency :: jsnum
  subBass :: bool

text \<open>
  The registry state: the globals \<open>ROOT_FREQUENCY\<close>, \<open>window.bassMode\<close> and
  \<open>activeNotes\<close> (an object used as a dictionary, kept as an association list in
  insertion order), the number of oscillators created so far, and the set of oscillators
  on which \<open>stopNote\<close> has been called. \<open>stored\<close> is a history variable that no
  operation reads: every entry ever assigned to \<open>activeNotes[noteKey]\<close>, oldest first.
  Property names inherited from \<open>Object.prototype\<close> are not modelled as note keys.
\<close>

record registry =
  ROOT_FREQUENCY :: real
  bassMode :: bool
  activeNotes :: "(string \<times> voice list) list"
  created :: nat
  stopped :: "nat set"
  stored :: "(string \<times> voice list) list"

definition initialRegistry :: "real \<Rightarrow> bool \<Rightarrow> registry" where
  "initialRegistry rootHz bass =
     \<lparr>ROOT_FREQUENCY = rootHz, bassMode = bass, activeNotes = [], created = 0, stopped = {},
      stored = []\<rparr>"

text \<open>The two voice constructors: the oscillator is created and started, unless the
  platform rejects the frequency.\<close>

definition createSustainedNote :: "platform \<Rightarrow> jsnum \<Rightarrow> registry \<Rightarrow> (error + voice) \<times> registry" where
  "createSustainedNote p frequency st =
     (case createFails p False frequency of
        Some e \<Rightarrow> (Inl e, st)
      | None \<Rightarrow>
          (Inr \<lparr>oscillator = created st, baseFrequency = frequency, subBass = False\<rparr>,
           st\<lparr>created := Suc (created st)\<rparr>))"

definition createSubBass :: "platform \<Rightarrow> jsnum \<Rightarrow> registry \<Rightarrow> (error + voice) \<times> registry" where
  "createSubBass p frequency st =
     (case createFails p True frequency of
        Some e \<Rightarrow> (Inl e, st)
      | None \<Rightarrow>
          (Inr \<lparr>oscillator = created st, baseFrequency = frequency, subBass = True\<rparr>,
           st\<lparr>created := Suc (created st)\<rparr>))"

text \<open>
  \<^verbatim>\<open>
  function addBassNoteIfEnabled(oscillators, noteIndex) {
      if (window.bassMode && noteIndex !== null) {
          const rootFreq = getScaleNoteFrequency(noteIndex, 0);
          const bassFrequency = rootFreq / 2;
          const bassComponents = createSubBass(bassFrequency);
          oscillators.push(bassComponents);
      }
  }
  \<close>
\<close>

definition addBassNoteIfEnabled ::
  "platform \<Rightarrow> voice list \<Rightarrow> nat option \<Rightarrow> registry \<Rightarrow> (error + voice list) \<times> registry" where
  "addBassNoteIfEnabled p oscillators noteIndex st =
     (case noteIndex of
        None \<Rightarrow> (Inr oscillators, st)
      | Some i \<Rightarrow>
          if bassMode st then
            (case getScaleNoteFrequency (ROOT_FREQUENCY st) i 0 of
               Inl e \<Rightarrow> (Inl e, st)
             | Inr rootFreq \<Rightarrow>
                 (let bassFrequency = jsQuotient rootFreq (Finite 2) in
                  case createSubBass p bassFrequency st of
                    (Inl e, st1) \<Rightarrow> (Inl e, st1)
                  | (Inr bassComponents, st1) \<Rightarrow> (Inr (oscillators @ [bassComponents]), st1)))
          else (Inr oscillators, st))"

text \<open>\<open>stopNote\<close> starts the release of one voice: its gain ramps down and its
  oscillator is told to stop after the release time.\<close>

definition stopNote :: "voice \<Rightarrow> registry \<Rightarrow> registry" where
  "stopNote v st = st\<lparr>stopped := insert (oscillator v) (stopped st)\<rparr>"

definition stopChord :: "voice list \<Rightarrow> registry \<Rightarrow> registry" where
  "stopChord oscillators st = fold stopNote oscillators st"

text \<open>
  \<^verbatim>\<open>
  function startNote(frequency, noteKey, noteIndex = null) {
      if (activeNotes[noteKey]) {
          const existing = activeNotes[noteKey];
          existing.forEach(comp => { stopNote(comp.oscillator, comp.gainNode); });
      }
      const noteComponents = waterSynth.createSustainedNote(frequency);
      noteComponents.baseFrequency = frequency;
      ...
      const oscillators = [noteComponents];
      addBassNoteIfEnabled(oscillators, noteIndex);
      activeNotes[noteKey] = oscillators;
      return noteKey;
  }
  \<close>
\<close>

definition startNote ::
  "platform \<Rightarrow> jsnum \<Rightarrow> string \<Rightarrow> nat option \<Rightarrow> registry \<Rightarrow> (error + string) \<times> registry" where
  "startNote p frequency noteKey noteIndex st =
     (let st1 = (case map_of (activeNotes st) noteKey of
                   None \<Rightarrow> st
                 | Some existing \<Rightarrow> fold stopNote existing st)
      in case createSustainedNote p frequency st1 of
           (Inl e, st2) \<Rightarrow> (Inl e, st2)
         | (Inr noteComponents, st2) \<Rightarrow>
             (case addBassNoteIfEnabled p [noteComponents] noteIndex st2 of
                (Inl e, st3) \<Rightarrow> (Inl e, st3)
              | (Inr oscillators, st3) \<Rightarrow>
                  (Inr noteKey,
                   st3\<lparr>activeNotes := AList.update noteKey oscillators (activeNotes st3),
                       stored := stored st3 @ [(noteKey, oscillators)]\<rparr>)))"

text \<open>The loop of \<open>startChord\<close> over the chord frequencies: one sustained voice each,
  in order; an exception of the factory ends the loop.\<close>

fun createVoices :: "platform \<Rightarrow> jsnum list \<Rightarrow> registry \<Rightarrow> (error + voice list) \<times> registry" where
  "createVoices p [] st = (Inr [], st)"
| "createVoices p (frequency # frequencies) st =
     (case createSustainedNote p frequency st of
        (Inl e, st1) \<Rightarrow> (Inl e, st1)
      | (Inr noteComponents, st1) \<Rightarrow>
          (case createVoices p frequencies st1 of
             (Inl e, st2) \<Rightarrow> (Inl e, st2)
           | (Inr oscillators, st2) \<Rightarrow> (Inr (noteComponents # oscillators), st2)))"

text \<open>
  \<^verbatim>\<open>
  function startChord(noteIndex, noteKey, extensions = []) {
      if (activeNotes[noteKey]) { stopChord(activeNotes[noteKey]); }
      const chordType = scaleDegreeChordTypes[noteIndex] || 'major';
      const frequencies = buildChordFrequencies(noteIndex, chordType, extensions);
      const oscillators = [];
      frequencies.forEach((frequency, i) => {
          const noteComponents = waterSynth.createSustainedNote(frequency);
          noteComponents.baseFrequency = frequency;
          ...
          oscillators.push(noteComponents);
      });
      addBassNoteIfEnabled(oscillators, noteIndex);
      activeNotes[noteKey] = oscillators;
      return noteKey;
  }
  \<close>
\<close>

definition startChord ::
  "platform \<Rightarrow> nat \<Rightarrow> string \<Rightarrow> string list \<Rightarrow> registry \<Rightarrow> (error + string) \<times> registry" where
  "startChord p noteIndex noteKey extensions st =
     (let st1 = (case map_of (activeNotes st) noteKey of
                   None \<Rightarrow> st
                 | Some existing \<Rightarrow> stopChord existing st);
          chordType = (if noteIndex < length scaleDegreeChordTypes
                       then scaleDegreeChordTypes ! noteIndex else ''major'')
      in case buildChordFrequencies (ROOT_FREQUENCY st1) noteIndex chordType extensions of
           Inl e \<Rightarrow> (Inl e, st1)
         | Inr frequencies \<Rightarrow>
             (case createVoices p frequencies st1 of
                (Inl e, st2) \<Rightarrow> (Inl e, st2)
              | (Inr oscillators, st2) \<Rightarrow>
                  (case addBassNoteIfEnabled p oscillators (Some noteIndex) st2 of
                     (Inl e, st3) \<Rightarrow> (Inl e, st3)
                   | (Inr oscillators', st3) \<Rightarrow>
                       (Inr noteKey,
                        st3\<lparr>activeNotes := AList.update noteKey oscillators' (activeNotes st3),
                            stored := stored st3 @ [(noteKey, oscillators')]\<rparr>))))"

text \<open>
  \<^verbatim>\<open>
  function stopNoteByKey(noteKey) {
      if (activeNotes[noteKey]) {
          const oscillators = activeNotes[noteKey];
          if (oscillators.length > 1) { stopChord(oscillators); }
          else { stopNote(oscillators[0].oscillator, oscillators[0].gainNode); }
          delete activeNotes[noteKey];
      }
  }
  \<close>
  An entry with no voice at all would make \<open>oscillators[0].oscillator\<close> throw.
\<close>

definition stopNoteByKey :: "string \<Rightarrow> registry \<Rightarrow> (error + unit) \<times> registry" where
  "stopNoteByKey noteKey st =
     (case map_of (activeNotes st) noteKey of
        None \<Rightarrow> (Inr (), st)
      | Some oscillators \<Rightarrow>
          if length oscillators > 1 then
            (Inr (), (stopChord oscillators st)\<lparr>activeNotes := AList.delete noteKey (activeNotes st)\<rparr>)
          else
            (case oscillators of
               [] \<Rightarrow> (Inl TypeError, st)
             | v # vs \<Rightarrow>
                 (Inr (), (stopNote v st)\<lparr>activeNotes := AList.delete noteKey (activeNotes st)\<rparr>)))"

text \<open>\<open>stopAllNotes\<close> calls \<open>stopNoteByKey\<close> for every key that \<open>Object.keys\<close> lists.\<close>

fun stopKeys :: "string list \<Rightarrow> registry \<Rightarrow> (error + unit) \<times> registry" where
  "stopKeys [] st = (Inr (), st)"
| "stopKeys (noteKey # noteKeys) st =
     (case stopNoteByKey noteKey st of
        (Inl e, st1) \<Rightarrow> (Inl e, st1)
      | (Inr u, st1) \<Rightarrow> stopKeys noteKeys st1)"

definition stopAllNotes :: "registry \<Rightarrow> (error + unit) \<times> registry" where
  "stopAllNotes st = stopKeys (map fst (activeNotes st)) st"

text \<open>The calls a client makes on the registry: the triggers, the releases, and the two
  settings that the triggers read. An exception ends the call and leaves the state as it
  was when thrown; the next call starts from there. The cleanup helper
  \<open>clearActiveNotes\<close>, which empties the table without stopping a voice, is neither a
  trigger nor a release and is left out.\<close>

datatype registry_call =
    StartNote jsnum string "nat option"
  | StartChord nat string "string list"
  | StopNoteByKey string
  | StopAllNotes
  | UpdateRootFrequency real
  | SetBassMode bool

fun registryStep :: "platform \<Rightarrow> registry_call \<Rightarrow> registry \<Rightarrow> registry" where
  "registryStep p (StartNote frequency noteKey noteIndex) st =
     snd (startNote p frequency noteKey noteIndex st)"
| "registryStep p (StartChord noteIndex noteKey extensions) st =
     snd (startChord p noteIndex noteKey extensions st)"
| "registryStep p (StopNoteByKey noteKey) st = snd (stopNoteByKey noteKey st)"
| "registryStep p StopAllNotes st = snd (stopAllNotes st)"
| "registryStep p (UpdateRootFrequency newFrequency) st = st\<lparr>ROOT_FREQUENCY := newFrequency\<rparr>"
| "registryStep p (SetBassMode b) st = st\<lparr>bassMode := b\<rparr>"

definition runRegistry :: "platform \<Rightarrow> registry_call list \<Rightarrow> registry \<Rightarrow> registry" where
  "runRegistry p calls st = fold (registryStep p) calls st"

text \<open>An entry is active while at least one of its voices has not been told to stop.\<close>

definition activeEntry :: "registry \<Rightarrow> voice list \<Rightarrow> bool" where
  "activeEntry st oscillators = (\<exists>v \<in> set oscillators. oscillator v \<notin> stopped st)"


section \<open>Invariants and examples used in the proofs\<close>

text \<open>Every entry of the history that is still active is the entry that the registry
  holds for its key.\<close>

definition currentOnly :: "registry \<Rightarrow> bool" where
  "currentOnly st =
     (\<forall>e \<in> set (stored st). activeEntry st (snd e) \<longrightarrow> map_of (activeNotes st) (fst e) = Some (snd e))"

text \<open>Oscillators are numbered in order of creation, so the voices of a later entry are
  younger than those of every earlier entry.\<close>

definition agesOrdered :: "registry \<Rightarrow> bool" where
  "agesOrdered st =
     ((\<forall>e \<in> set (stored st). \<forall>v \<in> set (snd e). oscillator v < created st)
      \<and> (\<forall>i j. i < j \<and> j < length (stored st) \<longrightarrow>
             (\<forall>v \<in> set (snd (stored st ! i)). \<forall>w \<in> set (snd (stored st ! j)).
                oscillator v < oscillator w)))"

definition registryInv :: "registry \<Rightarrow> bool" where
  "registryInv st = (distinct (map fst (activeNotes st)) \<and> currentOnly st \<and> agesOrdered st)"

text \<open>The entry held for a key, if any, has been released.\<close>

definition released :: "string \<Rightarrow> registry \<Rightarrow> bool" where
  "released noteKey st =
     (\<forall>vs. map_of (activeNotes st) noteKey = Some vs \<longrightarrow> \<not> activeEntry st vs)"

text \<open>The effect of a trigger on the state \<open>st1\<close> reached after the release of the
  existing entry: voices are created, and on success the new entry is stored.\<close>

definition triggered :: "registry \<Rightarrow> string \<Rightarrow> registry \<Rightarrow> bool" where
  "triggered st1 noteKey st' =
     (\<exists>n os. created st1 \<le> n
           \<and> (st' = st1\<lparr>created := n\<rparr>
              \<or> ((\<forall>w \<in> set os. created st1 \<le> oscillator w \<and> oscillator w < n)
                  \<and> st' = st1\<lparr>created := n,
                            activeNotes := AList.update noteKey os (activeNotes st1),
                            stored := stored st1 @ [(noteKey, os)]\<rparr>)))"


text \<open>A platform with the usual sample rate, a constant random source and a voice
  factory that never fails; and the gate after \<open>updateGateAmount(50)\<close> on it.\<close>

definition examplePlatform :: platform where
  "examplePlatform = \<lparr>sampleRate = 44100, random = (\<lambda>n. 1 / 2), createFails = (\<lambda>b f. None)\<rparr>"


text \<open>A gate in random mode whose cursor was moved to 1 by the previous cycle, and
  the voices of a note and of the chord on Do that replaces it.\<close>

definition randomGate :: gate where
  "randomGate =
     initialGate\<lparr>gateAmount := 50, gateBaseSequence := [Str ''8'', Str ''4T'', Str ''2''],
        gateSpeedSequence := [Str ''2'', Str ''8'', Str ''4T''], gateRandomEnabled := True,
        gateSequenceIndex := 1\<rparr>"

definition exampleNote :: voice where
  "exampleNote = \<lparr>oscillator = 0, baseFrequency = Finite 440, subBass = False\<rparr>"

definition exampleChord :: "voice list" where
  "exampleChord =
     [\<lparr>oscillator = 1, baseFrequency = Finite (26163 / 100), subBass = False\<rparr>,
      \<lparr>oscillator = 2, baseFrequency = Finite (26163 / 80), subBass = False\<rparr>,
      \<lparr>oscillator = 3, baseFrequency = Finite (78489 / 200), subBass = False\<rparr>]"

section \<open>Properties of the note-duration law\<close>

lemma parseInt_literals:
  "parseInt ''1'' = Some 1" "parseInt ''2'' = Some 2" "parseInt ''4'' = Some 4"
  "parseInt ''8'' = Some 8" "parseInt ''16'' = Some 16"
  by (simp_all add: parseInt_def isWhiteSpace_def digitOf_def)

lemma getNoteDuration_plain:
  assumes "bpm \<noteq> 0" and "\<not> endsWith s CHR ''T''" and "parseInt s = Some n" and "n \<noteq> 0"
  shows "getNoteDuration (Str s) bpm = Finite (60 / bpm / real_of_int n)"
  using assms by (simp add: getNoteDuration_def )

lemma getNoteDuration_triplets:
  assumes "bpm \<noteq> 0"
  shows "getNoteDuration (Str ''8T'') bpm = Finite (60 / bpm / 3)"
    and "getNoteDuration (Str ''4T'') bpm = Finite (60 / bpm * (2 / 3))"
    and "getNoteDuration (Str ''2T'') bpm = Finite (60 / bpm * (4 / 3))"
    and "getNoteDuration (Str ''1T'') bpm = Finite (60 / bpm * (8 / 3))"
  using assms
  by (simp_all add: getNoteDuration_def endsWith_def parseInt_literals
      )


text \<open>
  Claim C2, as amended. With \<open>beat = 60 / bpm\<close>, a plain token whose integer value is
  \<open>N \<noteq> 0\<close> lasts \<open>beat / N\<close>, and the four triplet tokens last \<open>beat / 3\<close>,
  \<open>beat \<cdot> 2/3\<close>, \<open>beat \<cdot> 4/3\<close> and \<open>beat \<cdot> 8/3\<close>. At 120 beats per minute the
  token \<open>"4"\<close> therefore lasts \<open>0.125\<close> seconds (a quarter of the half-second beat), and
  \<open>"8T"\<close>, \<open>"4T"\<close>, \<open>"1T"\<close> last \<open>1/6\<close>, \<open>1/3\<close> and \<open>4/3\<close> seconds.
\<close>

theorem note_duration_law:
  "(\<forall>bpm s n. bpm \<noteq> 0 \<and> \<not> endsWith s CHR ''T'' \<and> parseInt s = Some n \<and> n \<noteq> 0
       \<longrightarrow> getNoteDuration (Str s) bpm = Finite (60 / bpm / real_of_int n))
   \<and> (\<forall>bpm. bpm \<noteq> 0 \<longrightarrow>
         getNoteDuration (Str ''8T'') bpm = Finite (60 / bpm / 3)
       \<and> getNoteDuration (Str ''4T'') bpm = Finite (60 / bpm * (2 / 3))
       \<and> getNoteDuration (Str ''2T'') bpm = Finite (60 / bpm * (4 / 3))
       \<and> getNoteDuration (Str ''1T'') bpm = Finite (60 / bpm * (8 / 3)))
   \<and> getNoteDuration (Str ''4'') 120 = Finite (1 / 8)
   \<and> getNoteDuration (Str ''8T'') 120 = Finite (1 / 6)
   \<and> getNoteDuration (Str ''4T'') 120 = Finite (1 / 3)
   \<and> getNoteDuration (Str ''1T'') 120 = Finite (4 / 3)"
proof -
  have plain120: "getNoteDuration (Str ''4'') 120 = Finite (1 / 8)"
    using getNoteDuration_plain [of 120 "''4''" 4]
    by (simp add: endsWith_def parseInt_literals)
  have trip120: "getNoteDuration (Str ''8T'') 120 = Finite (1 / 6)"
    "getNoteDuration (Str ''4T'') 120 = Finite (1 / 3)"
    "getNoteDuration (Str ''1T'') 120 = Finite (4 / 3)"
    using getNoteDuration_triplets [of 120] by simp_all
  show ?thesis
    using plain120 trip120 getNoteDuration_plain getNoteDuration_triplets by blast
qed

text \<open>
  The token \<open>"16"\<close> and the triplet \<open>"2T"\<close> at 90 beats per minute.
\<close>

theorem note_duration_law_witness:
  "(90 :: real) \<noteq> 0 \<and> \<not> endsWith ''16'' CHR ''T'' \<and> parseInt ''16'' = Some 16
   \<and> (16 :: int) \<noteq> 0
   \<and> getNoteDuration (Str ''16'') 90 = Finite (60 / 90 / 16)
   \<and> getNoteDuration (Str ''2T'') 90 = Finite (60 / 90 * (4 / 3))"
proof -
  have h: "(90 :: real) \<noteq> 0 \<and> \<not> endsWith ''16'' CHR ''T'' \<and> parseInt ''16'' = Some 16
      \<and> (16 :: int) \<noteq> 0"
    by (simp add: endsWith_def parseInt_literals)
  have t: "(90 :: real) \<noteq> 0" by simp
  from note_duration_law have
    "getNoteDuration (Str ''16'') 90 = Finite (60 / 90 / real_of_int 16)"
    using h by blast
  moreover from note_duration_law have
    "getNoteDuration (Str ''2T'') 90 = Finite (60 / 90 * (4 / 3))"
    using t by blast
  ultimately show ?thesis using h by simp
qed

text \<open>
  Claim C2, as the specification states it, gives \<open>getNoteDuration("4", 120) = 0.5\<close>.
  The code divides the beat by the token's value, so the result is \<open>0.125\<close>.
\<close>

theorem note_duration_quarter_counterexample:
  "getNoteDuration (Str ''4'') 120 = Finite (1 / 8)
   \<and> getNoteDuration (Str ''4'') 120 \<noteq> Finite (1 / 2)"
  by (simp add: getNoteDuration_def endsWith_def parseInt_literals )

text \<open>
  Claim C10. For a tempo \<open>bpm > 0\<close> and a triplet token \<open>"NT"\<close> whose base value is
  none of 8, 4, 2, 1 (also when \<open>N\<close> is not a number at all), \<open>getNoteDuration\<close>
  returns the whole beat \<open>60 / bpm\<close> through its fallback, as a finite number.
\<close>

theorem triplet_fallback:
  assumes "0 < bpm"
    and "parseInt base \<notin> {Some 8, Some 4, Some 2, Some 1}"
  shows "getNoteDuration (Str (base @ ''T'')) bpm = Finite (60 / bpm)"
  using assms by (simp add: getNoteDuration_def endsWith_def )

text \<open>
  The token \<open>"16T"\<close> at 120 beats per minute lasts the whole half-second beat.
\<close>

theorem triplet_fallback_witness:
  "(0 :: real) < 120 \<and> parseInt ''16'' \<notin> {Some 8, Some 4, Some 2, Some 1}
   \<and> getNoteDuration (Str ''16T'') 120 = Finite (1 / 2)"
proof -
  have h1: "(0 :: real) < 120" by simp
  have h2: "parseInt ''16'' \<notin> {Some 8, Some 4, Some 2, Some 1}"
    by (simp add: parseInt_literals)
  show ?thesis using h1 h2 triplet_fallback [OF h1 h2] by simp
qed

section \<open>Shuffling and the gate curve\<close>

lemma randomIndex_le:
  assumes "0 \<le> r" and "r < 1"
  shows "randomIndex r i \<le> i"
proof -
  have "r * real (i + 1) < real (i + 1)"
    using assms by (simp add: mult_less_cancel_right2)
  then have "\<lfloor>r * real (i + 1)\<rfloor> < int (i + 1)"
    by (simp add: floor_less_iff)
  then show ?thesis
    unfolding randomIndex_def by linarith
qed

lemma shuffleLoop_mset:
  assumes "\<forall>k. 0 \<le> rnd k \<and> rnd k < 1"
  shows "n < length xs \<Longrightarrow> mset (shuffleLoop rnd calls xs n) = mset xs"
proof (induction n arbitrary: xs calls)
  case 0
  then show ?case by simp
next
  case (Suc n)
  let ?j = "randomIndex (rnd calls) (Suc n)"
  have j: "?j \<le> Suc n"
    using assms randomIndex_le by blast
  let ?ys = "xs[Suc n := xs ! ?j, ?j := xs ! Suc n]"
  have len: "length ?ys = length xs" by simp
  have "mset ?ys = mset xs"
    using Suc.prems j by (simp add: mset_swap)
  moreover have "mset (shuffleLoop rnd (Suc calls) ?ys n) = mset ?ys"
    using Suc.IH [of ?ys "Suc calls"] Suc.prems len by simp
  ultimately show ?case by (simp add: Let_def)
qed

lemma shuffleArray_mset:
  assumes "\<forall>k. 0 \<le> rnd k \<and> rnd k < 1"
  shows "mset (shuffleArray rnd calls array) = mset array"
proof (cases array)
  case Nil
  then show ?thesis by (simp add: shuffleArray_def)
next
  case (Cons a as)
  then have "length array - 1 < length array" by simp
  then show ?thesis
    unfolding shuffleArray_def using shuffleLoop_mset [OF assms] by blast
qed

text \<open>
  Claim C6. Whatever numbers in \<open>[0, 1)\<close> the calls of \<open>Math.random()\<close> return,
  \<open>shuffleArray\<close> returns a permutation of its argument: the same elements with the same
  multiplicities, hence the same length. Nothing is dropped and nothing is duplicated.
\<close>

theorem shuffleArray_permutation:
  assumes "\<forall>k. 0 \<le> rnd k \<and> rnd k < 1"
  shows "mset (shuffleArray rnd calls array) = mset array
         \<and> length (shuffleArray rnd calls array) = length array"
proof -
  have m: "mset (shuffleArray rnd calls array) = mset array"
    using assms by (rule shuffleArray_mset)
  from m have "length (shuffleArray rnd calls array) = length array"
    by (rule mset_eq_length)
  with m show ?thesis by simp
qed

text \<open>
  The shuffle of a sequence of five tokens with repetitions, of a one-element sequence and
  of the empty sequence.
\<close>

theorem shuffleArray_permutation_witness:
  "(\<forall>k. (0 :: real) \<le> (\<lambda>k. 1 / 2) k \<and> (\<lambda>k. 1 / 2 :: real) k < 1)
   \<and> shuffleArray (\<lambda>k. 1 / 2 :: real) 0 [Str ''4'', Str ''8'', Str ''4'', Str ''8T'', Str ''4'']
       = [Str ''4'', Str ''8T'', Str ''8'', Str ''4'', Str ''4'']
   \<and> mset (shuffleArray (\<lambda>k. 1 / 2 :: real) 0 [Str ''4'', Str ''8'', Str ''4'', Str ''8T'', Str ''4''])
       = mset [Str ''4'', Str ''8'', Str ''4'', Str ''8T'', Str ''4'']
   \<and> length (shuffleArray (\<lambda>k. 1 / 2 :: real) 0 [Str ''4'', Str ''8'', Str ''4'', Str ''8T'', Str ''4'']) = 5
   \<and> shuffleArray (\<lambda>k. 1 / 2 :: real) 0 [Str ''8''] = [Str ''8'']
   \<and> shuffleArray (\<lambda>k. 1 / 2 :: real) 0 ([] :: note_value list) = []"
proof -
  have h: "\<forall>k. (0 :: real) \<le> (\<lambda>k. 1 / 2) k \<and> (\<lambda>k. 1 / 2 :: real) k < 1" by simp
  have e: "shuffleArray (\<lambda>k. 1 / 2 :: real) 0 [Str ''4'', Str ''8'', Str ''4'', Str ''8T'', Str ''4'']
       = [Str ''4'', Str ''8T'', Str ''8'', Str ''4'', Str ''4'']"
    by code_simp
  have s: "shuffleArray (\<lambda>k. 1 / 2 :: real) 0 [Str ''8''] = [Str ''8'']"
    "shuffleArray (\<lambda>k. 1 / 2 :: real) 0 ([] :: note_value list) = []"
    by (simp_all add: shuffleArray_def)
  from shuffleArray_permutation [OF h, of 0 "[Str ''4'', Str ''8'', Str ''4'', Str ''8T'', Str ''4'']"]
  show ?thesis using h e s by simp
qed





section \<open>Chord frequencies\<close>





text \<open>A name for which the table has no entry is skipped.\<close>

lemma unknown_extension_skipped:
  assumes "map_of CHORD_INTERVALS ext = None"
  shows "addExtensions f extensions = addExtensions f (removeAll ext extensions)"
  using assms by (induction extensions) (auto split: option.splits)

lemma buildChordFrequencies_skips_unknown:
  assumes "map_of CHORD_INTERVALS ext = None"
  shows "buildChordFrequencies rootHz i chordType extensions
         = buildChordFrequencies rootHz i chordType (removeAll ext extensions)"
  using unknown_extension_skipped [OF assms]
  by (simp add: buildChordFrequencies_def split: sum.splits jsratio.splits option.splits)

lemma getScaleNoteFrequency_Do:
  "getScaleNoteFrequency (26163 / 100) 2 0 = Inr (Finite (26163 / 100))"
  by (simp add: getScaleNoteFrequency_def MAJOR_SCALE_RATIOS_def getFrequencyFromRatio_def element_def)

lemma chord_Do:
  "buildChordFrequencies (26163 / 100) 2 ''major'' []
     = Inr [Finite (26163 / 100), Finite (26163 / 80), Finite (78489 / 200)]"
  "buildChordFrequencies (26163 / 100) 2 ''major'' [''seventh'']
     = Inr [Finite (26163 / 100), Finite (26163 / 80), Finite (78489 / 200), Finite (78489 / 160)]"
  by (simp_all add: buildChordFrequencies_def getScaleNoteFrequency_Do getFrequencyFromRatio_def
      element_def CHORD_INTERVALS_def CHORD_INTERVALS_major_def)

text \<open>
  Claim C7 says that an extension name other than the five extensions is skipped. The
  lookup \<open>CHORD_INTERVALS[ext]\<close> also answers for the triad names: the extension
  \<open>'major'\<close> is none of the five, yet it adds a fourth frequency, \<open>NaN\<close>, to the chord
  on Do, where the list without it has three.
\<close>

theorem triad_name_as_extension:
  "buildChordFrequencies (26163 / 100) 2 ''major'' [''major'']
     = Inr [Finite (26163 / 100), Finite (26163 / 80), Finite (78489 / 200), NaN]
   \<and> buildChordFrequencies (26163 / 100) 2 ''major'' (removeAll ''major'' [''major''])
     = Inr [Finite (26163 / 100), Finite (26163 / 80), Finite (78489 / 200)]
   \<and> ''major'' \<notin> {''seventh'', ''minorSeventh'', ''ninth'', ''eleventh'', ''thirteenth''}"
  by (simp add: buildChordFrequencies_def getScaleNoteFrequency_Do getFrequencyFromRatio_def
      element_def CHORD_INTERVALS_def CHORD_INTERVALS_major_def)

section \<open>The registry invariant\<close>

subsection \<open>What the constructors change\<close>

lemma fold_stopNote:
  "fold stopNote vs st = st\<lparr>stopped := stopped st \<union> oscillator ` set vs\<rparr>"
  by (induction vs arbitrary: st) (auto simp: stopNote_def)

lemma createSustainedNote_cases:
  "createSustainedNote p f st = (r, st') \<Longrightarrow>
     (\<exists>e. r = Inl e \<and> st' = st)
     \<or> (\<exists>v. r = Inr v \<and> oscillator v = created st \<and> st' = st\<lparr>created := Suc (created st)\<rparr>)"
  by (auto simp: createSustainedNote_def split: option.splits)

lemma createSubBass_cases:
  "createSubBass p f st = (r, st') \<Longrightarrow>
     (\<exists>e. r = Inl e \<and> st' = st)
     \<or> (\<exists>v. r = Inr v \<and> oscillator v = created st \<and> st' = st\<lparr>created := Suc (created st)\<rparr>)"
  by (auto simp: createSubBass_def split: option.splits)

lemma createVoices_frame:
  "createVoices p fs st = (r, st') \<Longrightarrow>
     \<exists>n \<ge> created st. st' = st\<lparr>created := n\<rparr>
        \<and> (\<forall>vs. r = Inr vs \<longrightarrow> (\<forall>v \<in> set vs. created st \<le> oscillator v \<and> oscillator v < n))"
proof (induction fs arbitrary: st r st')
  case Nil
  then show ?case by (intro exI [of _ "created st"]) auto
next
  case (Cons f fs)
  obtain r1 st1 where c1: "createSustainedNote p f st = (r1, st1)" by force
  from createSustainedNote_cases [OF c1] show ?case
  proof (elim disjE exE conjE)
    fix e assume "r1 = Inl e" "st1 = st"
    with Cons.prems c1 have "r = Inl e" "st' = st" by auto
    then show ?thesis by (intro exI [of _ "created st"]) auto
  next
    fix v assume v: "r1 = Inr v" "oscillator v = created st" "st1 = st\<lparr>created := Suc (created st)\<rparr>"
    obtain r2 st2 where c2: "createVoices p fs st1 = (r2, st2)" by force
    from Cons.IH [OF c2] obtain n where n: "n \<ge> created st1" "st2 = st1\<lparr>created := n\<rparr>"
      "\<forall>vs. r2 = Inr vs \<longrightarrow> (\<forall>v \<in> set vs. created st1 \<le> oscillator v \<and> oscillator v < n)"
      by blast
    from Cons.prems c1 c2 v have r: "st' = st2" "r = (case r2 of Inl e \<Rightarrow> Inl e | Inr vs \<Rightarrow> Inr (v # vs))"
      by (auto split: sum.splits)
    show ?thesis
    proof (intro exI [of _ n] conjI allI impI)
      show "created st \<le> n" using n(1) v(3) by simp
      show "st' = st\<lparr>created := n\<rparr>" using r(1) n(2) v(3) by simp
    next
      fix vs assume "r = Inr vs"
      with r(2) obtain vs' where vs': "r2 = Inr vs'" "vs = v # vs'"
        by (auto split: sum.splits)
      with n(3) have "\<forall>w \<in> set vs'. created st1 \<le> oscillator w \<and> oscillator w < n" by blast
      with v n(1) vs' show "\<forall>v\<in>set vs. created st \<le> oscillator v \<and> oscillator v < n"
        by auto
    qed
  qed
qed

lemma addBassNoteIfEnabled_frame:
  assumes "addBassNoteIfEnabled p os idx st = (r, st')"
  shows "\<exists>n \<ge> created st. st' = st\<lparr>created := n\<rparr>
        \<and> (\<forall>vs. r = Inr vs \<longrightarrow> (\<forall>v \<in> set vs. v \<in> set os \<or> (created st \<le> oscillator v \<and> oscillator v < n)))"
proof (cases "\<exists>i f. idx = Some i \<and> bassMode st \<and> getScaleNoteFrequency (ROOT_FREQUENCY st) i 0 = Inr f")
  case False
  with assms have "st' = st" "\<forall>vs. r = Inr vs \<longrightarrow> vs = os"
    by (auto simp: addBassNoteIfEnabled_def split: option.splits if_splits sum.splits)
  then show ?thesis by (intro exI [of _ "created st"]) auto
next
  case True
  then obtain i f where t: "idx = Some i" "bassMode st" "getScaleNoteFrequency (ROOT_FREQUENCY st) i 0 = Inr f"
    by blast
  obtain r1 st1 where c: "createSubBass p (jsQuotient f (Finite 2)) st = (r1, st1)" by force
  from assms t c have r: "st' = st1" "r = (case r1 of Inl e \<Rightarrow> Inl e | Inr b \<Rightarrow> Inr (os @ [b]))"
    by (auto simp: addBassNoteIfEnabled_def split: sum.splits)
  from createSubBass_cases [OF c] show ?thesis
  proof (elim disjE exE conjE)
    fix e assume "r1 = Inl e" "st1 = st"
    with r show ?thesis by (intro exI [of _ "created st"]) auto
  next
    fix v assume "r1 = Inr v" "oscillator v = created st" "st1 = st\<lparr>created := Suc (created st)\<rparr>"
    with r show ?thesis by (intro exI [of _ "Suc (created st)"]) auto
  qed
qed


subsection \<open>Preservation by the state updates\<close>

lemma registryInv_created:
  assumes "registryInv st" and "created st \<le> n"
  shows "registryInv (st\<lparr>created := n\<rparr>)"
  using assms
  by (fastforce simp: registryInv_def currentOnly_def agesOrdered_def activeEntry_def)

lemma registryInv_stopped:
  assumes "registryInv st"
  shows "registryInv (st\<lparr>stopped := stopped st \<union> S\<rparr>)"
  using assms
  by (fastforce simp: registryInv_def currentOnly_def agesOrdered_def activeEntry_def)

lemma released_absent:
  "map_of (activeNotes st) noteKey = None \<Longrightarrow> released noteKey st"
  by (simp add: released_def)

lemma released_stopped:
  assumes "map_of (activeNotes st) noteKey = Some vs"
  shows "released noteKey (st\<lparr>stopped := stopped st \<union> oscillator ` set vs\<rparr>)"
  using assms by (auto simp: released_def activeEntry_def)

lemma registryInv_store:
  assumes inv: "registryInv st" and rel: "released noteKey st" and n: "created st \<le> n"
    and os: "\<forall>v \<in> set os. created st \<le> oscillator v \<and> oscillator v < n"
  shows "registryInv (st\<lparr>created := n,
            activeNotes := AList.update noteKey os (activeNotes st),
            stored := stored st @ [(noteKey, os)]\<rparr>)"
    (is "registryInv ?st'")
proof -
  from inv have d: "distinct (map fst (activeNotes st))" and c: "currentOnly st" and a: "agesOrdered st"
    by (simp_all add: registryInv_def)
  have d': "distinct (map fst (activeNotes ?st'))"
    using d by (simp add: distinct_update)
  have c': "currentOnly ?st'"
    unfolding currentOnly_def
  proof (intro ballI impI)
    fix e assume e: "e \<in> set (stored ?st')" and act: "activeEntry ?st' (snd e)"
    from act have act0: "activeEntry st (snd e)" by (simp add: activeEntry_def)
    from e consider "e = (noteKey, os)" | "e \<in> set (stored st)" by auto
    then show "map_of (activeNotes ?st') (fst e) = Some (snd e)"
    proof cases
      case 1
      then show ?thesis by (simp add: update_conv')
    next
      case 2
      with c act0 have cur: "map_of (activeNotes st) (fst e) = Some (snd e)"
        by (simp add: currentOnly_def)
      with rel act0 have "fst e \<noteq> noteKey" by (auto simp: released_def)
      with cur show ?thesis by (simp add: update_conv')
    qed
  qed
  have a': "agesOrdered ?st'"
    unfolding agesOrdered_def
  proof (intro conjI ballI allI impI)
    fix e v assume "e \<in> set (stored ?st')" "v \<in> set (snd e)"
    then show "oscillator v < created ?st'"
      using a os n by (fastforce simp: agesOrdered_def)
  next
    fix i j v w
    assume ij: "i < j \<and> j < length (stored ?st')"
      and v: "v \<in> set (snd (stored ?st' ! i))" and w: "w \<in> set (snd (stored ?st' ! j))"
    show "oscillator v < oscillator w"
    proof (cases "j < length (stored st)")
      case True
      with ij v w a show ?thesis by (simp add: agesOrdered_def nth_append)
    next
      case False
      with ij have j: "j = length (stored st)" and i: "i < length (stored st)" by auto
      from i v have "v \<in> set (snd (stored st ! i))" by (simp add: nth_append)
      with a i have "oscillator v < created st"
        unfolding agesOrdered_def using nth_mem by blast
      moreover from j w have "w \<in> set os" by (simp add: nth_append)
      ultimately show ?thesis using os by fastforce
    qed
  qed
  from d' c' a' show ?thesis by (simp add: registryInv_def)
qed

lemma registryInv_delete:
  assumes inv: "registryInv st" and rel: "released noteKey st"
  shows "registryInv (st\<lparr>activeNotes := AList.delete noteKey (activeNotes st)\<rparr>)"
    (is "registryInv ?st'")
proof -
  from inv have d: "distinct (map fst (activeNotes st))" and c: "currentOnly st" and a: "agesOrdered st"
    by (simp_all add: registryInv_def)
  have d': "distinct (map fst (activeNotes ?st'))"
    using d by (simp add: distinct_delete)
  have c': "currentOnly ?st'"
    unfolding currentOnly_def
  proof (intro ballI impI)
    fix e assume e: "e \<in> set (stored ?st')" and act: "activeEntry ?st' (snd e)"
    from act have act0: "activeEntry st (snd e)" by (simp add: activeEntry_def)
    with c e have cur: "map_of (activeNotes st) (fst e) = Some (snd e)"
      by (simp add: currentOnly_def)
    with rel act0 have "fst e \<noteq> noteKey" by (auto simp: released_def)
    with cur show "map_of (activeNotes ?st') (fst e) = Some (snd e)"
      by (simp add: delete_conv')
  qed
  have a': "agesOrdered ?st'"
    using a by (simp add: agesOrdered_def)
  from d' c' a' show ?thesis by (simp add: registryInv_def)
qed

lemma triggered_failed:
  assumes "created st1 \<le> n" and "st' = st1\<lparr>created := n\<rparr>"
  shows "triggered st1 noteKey st'"
  unfolding triggered_def
  by (rule exI [of _ n], rule exI [of _ "[]"]) (use assms in simp)

lemma triggered_stored:
  assumes "created st1 \<le> n"
    and "\<forall>w \<in> set os. created st1 \<le> oscillator w \<and> oscillator w < n"
    and "st' = st1\<lparr>created := n, activeNotes := AList.update noteKey os (activeNotes st1),
                            stored := stored st1 @ [(noteKey, os)]\<rparr>"
  shows "triggered st1 noteKey st'"
  unfolding triggered_def
  by (rule exI [of _ n], rule exI [of _ os]) (use assms in simp)

lemma triggered_same:
  "triggered st1 noteKey st1"
  by (rule triggered_failed [of st1 "created st1"]) simp_all

lemma triggered_stopped: "triggered st1 noteKey st' \<Longrightarrow> stopped st' = stopped st1"
  unfolding triggered_def by (elim exE conjE disjE) simp_all

subsection \<open>Preservation by the operations\<close>

lemma release_existing:
  assumes "registryInv st"
  shows "registryInv (case map_of (activeNotes st) noteKey of None \<Rightarrow> st
                      | Some existing \<Rightarrow> fold stopNote existing st)"
    and "released noteKey (case map_of (activeNotes st) noteKey of None \<Rightarrow> st
                      | Some existing \<Rightarrow> fold stopNote existing st)"
  using assms
  by (auto simp: fold_stopNote registryInv_stopped released_absent released_stopped
      split: option.splits)

lemma startChord_unfold:
  "startChord p noteIndex noteKey extensions st =
     (case buildChordFrequencies (ROOT_FREQUENCY (case map_of (activeNotes st) noteKey of None \<Rightarrow> st
                      | Some existing \<Rightarrow> stopChord existing st)) noteIndex (if noteIndex < length scaleDegreeChordTypes
                       then scaleDegreeChordTypes ! noteIndex else ''major'') extensions of
           Inl e \<Rightarrow> (Inl e, (case map_of (activeNotes st) noteKey of None \<Rightarrow> st
                      | Some existing \<Rightarrow> stopChord existing st))
         | Inr frequencies \<Rightarrow>
             (case createVoices p frequencies (case map_of (activeNotes st) noteKey of None \<Rightarrow> st
                      | Some existing \<Rightarrow> stopChord existing st) of
                (Inl e, st2) \<Rightarrow> (Inl e, st2)
              | (Inr oscillators, st2) \<Rightarrow>
                  (case addBassNoteIfEnabled p oscillators (Some noteIndex) st2 of
                     (Inl e, st3) \<Rightarrow> (Inl e, st3)
                   | (Inr oscillators', st3) \<Rightarrow>
                       (Inr noteKey,
                        st3\<lparr>activeNotes := AList.update noteKey oscillators' (activeNotes st3),
                            stored := stored st3 @ [(noteKey, oscillators')]\<rparr>))))"
  unfolding startChord_def by (simp only: Let_def)

lemma startNote_shape:
  fixes st :: registry and noteKey :: string
  defines "st1 \<equiv> (case map_of (activeNotes st) noteKey of None \<Rightarrow> st
                      | Some existing \<Rightarrow> fold stopNote existing st)"
  shows "triggered st1 noteKey (snd (startNote p frequency noteKey noteIndex st))"
proof -
  obtain r1 st2 where c1: "createSustainedNote p frequency st1 = (r1, st2)" by force
  from createSustainedNote_cases [OF c1] show ?thesis
  proof (elim disjE exE conjE)
    fix e assume "r1 = Inl e" "st2 = st1"
    with c1 have "snd (startNote p frequency noteKey noteIndex st) = st1"
      by (simp add: startNote_def st1_def)
    then show ?thesis by (simp add: triggered_same)
  next
    fix v assume v: "r1 = Inr v" "oscillator v = created st1" "st2 = st1\<lparr>created := Suc (created st1)\<rparr>"
    obtain r2 st3 where c2: "addBassNoteIfEnabled p [v] noteIndex st2 = (r2, st3)" by force
    from addBassNoteIfEnabled_frame [OF c2] obtain n where n: "created st2 \<le> n"
      "st3 = st2\<lparr>created := n\<rparr>"
      "\<forall>vs. r2 = Inr vs \<longrightarrow> (\<forall>w \<in> set vs. w \<in> set [v] \<or> (created st2 \<le> oscillator w \<and> oscillator w < n))"
      by blast
    from n v have n1: "created st1 \<le> n" and st3: "st3 = st1\<lparr>created := n\<rparr>" by simp_all
    show ?thesis
    proof (cases r2)
      case (Inl e)
      with c1 c2 v have "snd (startNote p frequency noteKey noteIndex st) = st3"
        by (simp add: startNote_def st1_def)
      with st3 show ?thesis using triggered_failed [OF n1] by simp
    next
      case (Inr os)
      with c1 c2 v have fin: "snd (startNote p frequency noteKey noteIndex st)
          = st3\<lparr>activeNotes := AList.update noteKey os (activeNotes st3),
                 stored := stored st3 @ [(noteKey, os)]\<rparr>"
        by (simp add: startNote_def st1_def)
      have c2s: "created st2 = Suc (created st1)" using v(3) by simp
      have range: "\<forall>w \<in> set os. created st1 \<le> oscillator w \<and> oscillator w < n"
      proof
        fix w assume "w \<in> set os"
        with n(3) Inr have "w = v \<or> (Suc (created st1) \<le> oscillator w \<and> oscillator w < n)"
          unfolding c2s by auto
        then show "created st1 \<le> oscillator w \<and> oscillator w < n"
          using v(2) n(1) c2s by auto
      qed
      from fin have "snd (startNote p frequency noteKey noteIndex st)
          = st1\<lparr>created := n, activeNotes := AList.update noteKey os (activeNotes st1),
                 stored := stored st1 @ [(noteKey, os)]\<rparr>"
        by (simp add: st3)
      then show ?thesis by (rule triggered_stored [OF n1 range])
    qed
  qed
qed

lemma startChord_shape:
  fixes st :: registry and noteKey :: string
  defines "st1 \<equiv> (case map_of (activeNotes st) noteKey of None \<Rightarrow> st
                      | Some existing \<Rightarrow> stopChord existing st)"
  shows "triggered st1 noteKey (snd (startChord p noteIndex noteKey extensions st))"
proof -
  define chordType where "chordType = (if noteIndex < length scaleDegreeChordTypes
                       then scaleDegreeChordTypes ! noteIndex else ''major'')"
  have unf: "startChord p noteIndex noteKey extensions st =
     (case buildChordFrequencies (ROOT_FREQUENCY st1) noteIndex chordType extensions of
           Inl e \<Rightarrow> (Inl e, st1)
         | Inr frequencies \<Rightarrow>
             (case createVoices p frequencies st1 of
                (Inl e, st2) \<Rightarrow> (Inl e, st2)
              | (Inr oscillators, st2) \<Rightarrow>
                  (case addBassNoteIfEnabled p oscillators (Some noteIndex) st2 of
                     (Inl e, st3) \<Rightarrow> (Inl e, st3)
                   | (Inr oscillators', st3) \<Rightarrow>
                       (Inr noteKey,
                        st3\<lparr>activeNotes := AList.update noteKey oscillators' (activeNotes st3),
                            stored := stored st3 @ [(noteKey, oscillators')]\<rparr>))))"
    unfolding st1_def chordType_def by (rule startChord_unfold)
  show ?thesis
  proof (cases "buildChordFrequencies (ROOT_FREQUENCY st1) noteIndex chordType extensions")
    case (Inl e)
    then have "snd (startChord p noteIndex noteKey extensions st) = st1"
      by (simp add: unf)
    then show ?thesis by (simp add: triggered_same)
  next
    case (Inr frequencies)
    obtain r1 st2 where c1: "createVoices p frequencies st1 = (r1, st2)" by force
    from createVoices_frame [OF c1] obtain m where m: "created st1 \<le> m" "st2 = st1\<lparr>created := m\<rparr>"
      "\<forall>vs. r1 = Inr vs \<longrightarrow> (\<forall>v \<in> set vs. created st1 \<le> oscillator v \<and> oscillator v < m)"
      by blast
    show ?thesis
    proof (cases r1)
      case (Inl e)
      with Inr c1 have "snd (startChord p noteIndex noteKey extensions st) = st2"
        by (simp add: unf)
      with m(2) show ?thesis using triggered_failed [OF m(1)] by simp
    next
      case r1: (Inr os)
      obtain r2 st3 where c2: "addBassNoteIfEnabled p os (Some noteIndex) st2 = (r2, st3)" by force
      from addBassNoteIfEnabled_frame [OF c2] obtain n where n: "created st2 \<le> n"
        "st3 = st2\<lparr>created := n\<rparr>"
        "\<forall>vs. r2 = Inr vs \<longrightarrow> (\<forall>w \<in> set vs. w \<in> set os \<or> (created st2 \<le> oscillator w \<and> oscillator w < n))"
        by blast
      from n m have n1: "created st1 \<le> n" and st3: "st3 = st1\<lparr>created := n\<rparr>" by simp_all
      show ?thesis
      proof (cases r2)
        case (Inl e)
        with Inr c1 r1 c2 have "snd (startChord p noteIndex noteKey extensions st) = st3"
          by (simp add: unf)
        with st3 show ?thesis using triggered_failed [OF n1] by simp
      next
        case r2: (Inr os')
        with Inr c1 r1 c2 have fin: "snd (startChord p noteIndex noteKey extensions st)
            = st3\<lparr>activeNotes := AList.update noteKey os' (activeNotes st3),
                   stored := stored st3 @ [(noteKey, os')]\<rparr>"
          by (simp add: unf)
        have c2m: "created st2 = m" using m(2) by simp
        have range: "\<forall>w \<in> set os'. created st1 \<le> oscillator w \<and> oscillator w < n"
        proof
          fix w assume "w \<in> set os'"
          with n(3) r2 have "w \<in> set os \<or> (m \<le> oscillator w \<and> oscillator w < n)"
            unfolding c2m by blast
          moreover have "w \<in> set os \<Longrightarrow> created st1 \<le> oscillator w \<and> oscillator w < m"
            using m(3) r1 by blast
          ultimately show "created st1 \<le> oscillator w \<and> oscillator w < n"
            using m(1) n(1) c2m by linarith
        qed
        from fin have "snd (startChord p noteIndex noteKey extensions st)
            = st1\<lparr>created := n, activeNotes := AList.update noteKey os' (activeNotes st1),
                   stored := stored st1 @ [(noteKey, os')]\<rparr>"
          by (simp add: st3)
        then show ?thesis by (rule triggered_stored [OF n1 range])
      qed
    qed
  qed
qed

lemma shape_inv:
  assumes inv1: "registryInv st1" and rel1: "released noteKey st1"
    and shape: "triggered st1 noteKey st'"
  shows "registryInv st'"
proof -
  from shape obtain n os where n: "created st1 \<le> n"
    and d: "st' = st1\<lparr>created := n\<rparr>
              \<or> ((\<forall>w \<in> set os. created st1 \<le> oscillator w \<and> oscillator w < n)
                  \<and> st' = st1\<lparr>created := n,
                            activeNotes := AList.update noteKey os (activeNotes st1),
                            stored := stored st1 @ [(noteKey, os)]\<rparr>)"
    unfolding triggered_def by (elim exE conjE)
  from d show ?thesis
  proof
    assume "st' = st1\<lparr>created := n\<rparr>"
    with registryInv_created [OF inv1 n] show ?thesis by simp
  next
    assume a: "(\<forall>w \<in> set os. created st1 \<le> oscillator w \<and> oscillator w < n)
                  \<and> st' = st1\<lparr>created := n,
                            activeNotes := AList.update noteKey os (activeNotes st1),
                            stored := stored st1 @ [(noteKey, os)]\<rparr>"
    then have os: "\<forall>w \<in> set os. created st1 \<le> oscillator w \<and> oscillator w < n" by (rule conjunct1)
    from registryInv_store [OF inv1 rel1 n os] a show ?thesis by simp
  qed
qed

lemma startNote_inv:
  assumes inv: "registryInv st"
  shows "registryInv (snd (startNote p frequency noteKey noteIndex st))"
  using release_existing [OF inv, of noteKey] startNote_shape [of st noteKey p frequency noteIndex]
  by (rule shape_inv)

lemma startChord_inv:
  assumes inv: "registryInv st"
  shows "registryInv (snd (startChord p noteIndex noteKey extensions st))"
  using release_existing [OF inv, of noteKey]
    startChord_shape [of st noteKey p noteIndex extensions, unfolded stopChord_def]
  by (rule shape_inv)

text \<open>The voices of the entry that a trigger replaces have all been told to stop.\<close>

lemma startNote_releases:
  assumes "map_of (activeNotes st) noteKey = Some existing"
  shows "oscillator ` set existing \<subseteq> stopped (snd (startNote p frequency noteKey noteIndex st))"
  using triggered_stopped [OF startNote_shape [of st noteKey p frequency noteIndex]] assms
  by (simp add: fold_stopNote)

lemma startChord_releases:
  assumes "map_of (activeNotes st) noteKey = Some existing"
  shows "oscillator ` set existing \<subseteq> stopped (snd (startChord p noteIndex noteKey extensions st))"
  using triggered_stopped [OF startChord_shape [of st noteKey p noteIndex extensions]] assms
  by (simp add: fold_stopNote stopChord_def)

lemma stopNoteByKey_inv:
  assumes inv: "registryInv st"
  shows "registryInv (snd (stopNoteByKey noteKey st))"
proof (cases "map_of (activeNotes st) noteKey")
  case None
  with inv show ?thesis by (simp add: stopNoteByKey_def)
next
  case (Some os)
  show ?thesis
  proof (cases "os = []")
    case True
    with Some inv show ?thesis by (simp add: stopNoteByKey_def)
  next
    case False
    define st1 where "st1 = st\<lparr>stopped := stopped st \<union> oscillator ` set os\<rparr>"
    have inv1: "registryInv st1"
      unfolding st1_def by (rule registryInv_stopped [OF inv])
    have rel1: "released noteKey st1"
      unfolding st1_def by (rule released_stopped [OF Some])
    have "snd (stopNoteByKey noteKey st) = st1\<lparr>activeNotes := AList.delete noteKey (activeNotes st1)\<rparr>"
    proof (cases "length os > 1")
      case True
      with Some show ?thesis
        by (simp add: stopNoteByKey_def stopChord_def fold_stopNote st1_def)
    next
      case one: False
      with False obtain v where "os = [v]" by (cases os) auto
      with Some show ?thesis
        by (simp add: stopNoteByKey_def stopNote_def st1_def)
    qed
    with registryInv_delete [OF inv1 rel1] show ?thesis by simp
  qed
qed

lemma stopKeys_inv:
  "registryInv st \<Longrightarrow> registryInv (snd (stopKeys noteKeys st))"
proof (induction noteKeys arbitrary: st)
  case Nil
  then show ?case by simp
next
  case (Cons k ks)
  obtain r st1 where s: "stopNoteByKey k st = (r, st1)" by force
  with stopNoteByKey_inv [OF Cons.prems, of k] have "registryInv st1" by simp
  with Cons.IH s show ?case by (cases r) auto
qed

lemma registryStep_inv:
  assumes "registryInv st"
  shows "registryInv (registryStep p c st)"
proof (cases c)
  case (UpdateRootFrequency f)
  with assms show ?thesis
    by (simp add: registryInv_def currentOnly_def agesOrdered_def activeEntry_def)
next
  case (SetBassMode b)
  with assms show ?thesis
    by (simp add: registryInv_def currentOnly_def agesOrdered_def activeEntry_def)
qed (use assms in \<open>simp_all add: startNote_inv startChord_inv stopNoteByKey_inv stopKeys_inv stopAllNotes_def\<close>)

lemma runRegistry_inv:
  "registryInv st \<Longrightarrow> registryInv (runRegistry p calls st)"
  unfolding runRegistry_def
  by (induction calls arbitrary: st) (simp_all add: registryStep_inv)

lemma initialRegistry_inv: "registryInv (initialRegistry rootHz bass)"
  by (simp add: registryInv_def currentOnly_def agesOrdered_def initialRegistry_def)

lemma agesOrdered_irrefl:
  assumes a: "agesOrdered st" and kl: "k < l" "l < length (stored st)"
    and same: "snd (stored st ! k) = snd (stored st ! l)"
    and w: "w \<in> set (snd (stored st ! k))"
  shows False
proof -
  from a have "\<forall>i j. i < j \<and> j < length (stored st) \<longrightarrow>
             (\<forall>v \<in> set (snd (stored st ! i)). \<forall>w \<in> set (snd (stored st ! j)).
                oscillator v < oscillator w)"
    unfolding agesOrdered_def by (rule conjunct2)
  then have "\<forall>v \<in> set (snd (stored st ! k)). \<forall>w \<in> set (snd (stored st ! l)).
                oscillator v < oscillator w"
    using kl by simp
  moreover from w same have "w \<in> set (snd (stored st ! l))" by simp
  ultimately have "oscillator w < oscillator w" using w by blast
  then show False by simp
qed

lemma registryInv_unique:
  assumes inv: "registryInv st"
    and i: "i < length (stored st)" and j: "j < length (stored st)"
    and key: "fst (stored st ! i) = fst (stored st ! j)"
    and ai: "activeEntry st (snd (stored st ! i))" and aj: "activeEntry st (snd (stored st ! j))"
  shows "i = j"
proof -
  from inv have c: "currentOnly st" and a: "agesOrdered st"
    by (simp_all add: registryInv_def)
  from c i ai have "map_of (activeNotes st) (fst (stored st ! i)) = Some (snd (stored st ! i))"
    unfolding currentOnly_def by simp
  moreover from c j aj have "map_of (activeNotes st) (fst (stored st ! j)) = Some (snd (stored st ! j))"
    unfolding currentOnly_def by simp
  ultimately have same: "snd (stored st ! i) = snd (stored st ! j)"
    using key by simp
  from ai obtain v where v: "v \<in> set (snd (stored st ! i))"
    unfolding activeEntry_def by (elim bexE)
  show "i = j"
  proof (rule ccontr)
    assume "i \<noteq> j"
    then consider "i < j" | "j < i" by linarith
    then show False
    proof cases
      case 1
      from agesOrdered_irrefl [OF a 1 j same v] show False .
    next
      case 2
      from v same have v': "v \<in> set (snd (stored st ! j))" by simp
      from agesOrdered_irrefl [OF a 2 i same [symmetric] v'] show False .
    qed
  qed
qed

text \<open>
  Claim C1. After any sequence of calls on the registry, started from the empty registry,
  the keys of \<open>activeNotes\<close> are distinct, every entry ever stored that still has a
  voice sounding is the entry that \<open>activeNotes\<close> holds for its key, and so no two
  entries stored under one key are active together. This rests on what \<open>startNote\<close> and
  \<open>startChord\<close> do first in every state: each voice of the entry already stored under
  the key is told to stop.
\<close>

theorem at_most_one_active_entry:
  "(let st = runRegistry p calls (initialRegistry rootHz bass) in
      distinct (map fst (activeNotes st))
      \<and> (\<forall>e \<in> set (stored st).
            activeEntry st (snd e) \<longrightarrow> map_of (activeNotes st) (fst e) = Some (snd e))
      \<and> (\<forall>i j. i < length (stored st) \<and> j < length (stored st)
              \<and> fst (stored st ! i) = fst (stored st ! j)
              \<and> activeEntry st (snd (stored st ! i)) \<and> activeEntry st (snd (stored st ! j))
            \<longrightarrow> i = j))
   \<and> (\<forall>st noteKey existing frequency noteIndex extensions chordIndex.
         map_of (activeNotes st) noteKey = Some existing \<longrightarrow>
           oscillator ` set existing \<subseteq> stopped (snd (startNote p frequency noteKey noteIndex st))
         \<and> oscillator ` set existing \<subseteq> stopped (snd (startChord p chordIndex noteKey extensions st)))"
proof -
  define st where "st = runRegistry p calls (initialRegistry rootHz bass)"
  have inv: "registryInv st"
    unfolding st_def by (rule runRegistry_inv [OF initialRegistry_inv])
  then have d: "distinct (map fst (activeNotes st))" and c: "currentOnly st"
    by (simp_all add: registryInv_def)
  have cur: "\<forall>e \<in> set (stored st).
      activeEntry st (snd e) \<longrightarrow> map_of (activeNotes st) (fst e) = Some (snd e)"
    using c by (simp add: currentOnly_def)
  have uniq: "\<forall>i j. i < length (stored st) \<and> j < length (stored st)
              \<and> fst (stored st ! i) = fst (stored st ! j)
              \<and> activeEntry st (snd (stored st ! i)) \<and> activeEntry st (snd (stored st ! j))
            \<longrightarrow> i = j"
    using registryInv_unique [OF inv] by simp
  have global: "let st = runRegistry p calls (initialRegistry rootHz bass) in
      distinct (map fst (activeNotes st))
      \<and> (\<forall>e \<in> set (stored st).
            activeEntry st (snd e) \<longrightarrow> map_of (activeNotes st) (fst e) = Some (snd e))
      \<and> (\<forall>i j. i < length (stored st) \<and> j < length (stored st)
              \<and> fst (stored st ! i) = fst (stored st ! j)
              \<and> activeEntry st (snd (stored st ! i)) \<and> activeEntry st (snd (stored st ! j))
            \<longrightarrow> i = j)"
    unfolding Let_def st_def [symmetric] using d cur uniq by (intro conjI)
  have local: "\<forall>st noteKey existing frequency noteIndex extensions chordIndex.
         map_of (activeNotes st) noteKey = Some existing \<longrightarrow>
           oscillator ` set existing \<subseteq> stopped (snd (startNote p frequency noteKey noteIndex st))
         \<and> oscillator ` set existing \<subseteq> stopped (snd (startChord p chordIndex noteKey extensions st))"
    by (intro allI impI conjI) (erule startNote_releases, erule startChord_releases)
  from global local show ?thesis by (rule conjI)
qed

lemma note_example:
  "runRegistry examplePlatform [StartNote (Finite 440) ''keyA'' None]
     (initialRegistry (26163 / 100) False)
   = \<lparr>ROOT_FREQUENCY = 26163 / 100, bassMode = False,
      activeNotes = [(''keyA'', [exampleNote])], created = 1, stopped = {},
      stored = [(''keyA'', [exampleNote])]\<rparr>"
  by (simp add: runRegistry_def initialRegistry_def startNote_def
      createSustainedNote_def addBassNoteIfEnabled_def examplePlatform_def exampleNote_def)

lemma retrigger_example:
  "runRegistry examplePlatform [StartNote (Finite 440) ''keyA'' None, StartChord 2 ''keyA'' []]
     (initialRegistry (26163 / 100) False)
   = \<lparr>ROOT_FREQUENCY = 26163 / 100, bassMode = False,
      activeNotes = [(''keyA'', exampleChord)], created = 4, stopped = {0},
      stored = [(''keyA'', [exampleNote]), (''keyA'', exampleChord)]\<rparr>"
  by (simp add: runRegistry_def initialRegistry_def startNote_def startChord_def
      createSustainedNote_def addBassNoteIfEnabled_def stopChord_def stopNote_def
      scaleDegreeChordTypes_def chord_Do examplePlatform_def exampleNote_def exampleChord_def)

text \<open>
  A note on \<open>keyA\<close> followed by a chord on the same key: the note is released, the chord
  is the one active entry.
\<close>

theorem at_most_one_active_entry_witness:
  "(let st = runRegistry examplePlatform
               [StartNote (Finite 440) ''keyA'' None, StartChord 2 ''keyA'' []]
               (initialRegistry (26163 / 100) False)
    in stored st = [(''keyA'', [exampleNote]), (''keyA'', exampleChord)]
       \<and> (''keyA'', exampleChord) \<in> set (stored st)
       \<and> activeEntry st exampleChord
       \<and> map_of (activeNotes st) ''keyA'' = Some exampleChord
       \<and> \<not> activeEntry st [exampleNote])
   \<and> (let st = runRegistry examplePlatform [StartNote (Finite 440) ''keyA'' None]
               (initialRegistry (26163 / 100) False)
      in map_of (activeNotes st) ''keyA'' = Some [exampleNote]
         \<and> oscillator ` set [exampleNote]
              \<subseteq> stopped (snd (startChord examplePlatform 2 ''keyA'' [] st))
         \<and> oscillator ` set [exampleNote]
              \<subseteq> stopped (snd (startNote examplePlatform (Finite 330) ''keyA'' None st)))"
proof -
  let ?calls = "[StartNote (Finite 440) ''keyA'' None, StartChord 2 ''keyA'' []]"
  let ?st = "runRegistry examplePlatform ?calls (initialRegistry (26163 / 100) False)"
  let ?st1 = "runRegistry examplePlatform [StartNote (Finite 440) ''keyA'' None]
               (initialRegistry (26163 / 100) False)"
  note T = at_most_one_active_entry [of examplePlatform ?calls "26163 / 100" False, unfolded Let_def]
  have cur: "\<forall>e \<in> set (stored ?st).
      activeEntry ?st (snd e) \<longrightarrow> map_of (activeNotes ?st) (fst e) = Some (snd e)"
    by (rule T [THEN conjunct1, THEN conjunct2, THEN conjunct1])
  have loc: "\<forall>st noteKey existing frequency noteIndex extensions chordIndex.
         map_of (activeNotes st) noteKey = Some existing \<longrightarrow>
           oscillator ` set existing \<subseteq> stopped (snd (startNote examplePlatform frequency noteKey noteIndex st))
         \<and> oscillator ` set existing \<subseteq> stopped (snd (startChord examplePlatform chordIndex noteKey extensions st))"
    by (rule T [THEN conjunct2])
  have s: "stored ?st = [(''keyA'', [exampleNote]), (''keyA'', exampleChord)]"
    by (simp add: retrigger_example)
  have mem: "(''keyA'', exampleChord) \<in> set (stored ?st)"
    by (simp add: s)
  have act: "activeEntry ?st (snd (''keyA'', exampleChord))"
    by (simp add: retrigger_example activeEntry_def exampleChord_def)
  have m: "map_of (activeNotes ?st) (fst (''keyA'', exampleChord)) = Some (snd (''keyA'', exampleChord))"
    by (rule cur [rule_format, OF mem act])
  have old: "\<not> activeEntry ?st [exampleNote]"
    by (simp add: retrigger_example activeEntry_def exampleNote_def)
  have e: "map_of (activeNotes ?st1) ''keyA'' = Some [exampleNote]"
    by (simp add: note_example)
  from loc [rule_format, OF e]
  have r: "oscillator ` set [exampleNote]
              \<subseteq> stopped (snd (startChord examplePlatform 2 ''keyA'' [] ?st1))"
    "oscillator ` set [exampleNote]
              \<subseteq> stopped (snd (startNote examplePlatform (Finite 330) ''keyA'' None ?st1))"
    by blast+
  from s mem act m old e r show ?thesis
    unfolding Let_def by simp
qed




section \<open>Chords in the registry\<close>








section \<open>The gate state machine\<close>

lemma length_shuffleLoop: "length (shuffleLoop rnd calls xs n) = length xs"
  by (induction n arbitrary: xs calls) (simp_all add: Let_def)

lemma length_shuffleArray: "length (shuffleArray rnd calls xs) = length xs"
  by (simp add: shuffleArray_def length_shuffleLoop)


























lemma reshuffle_random:
  assumes "gateRandomEnabled st" and "gateBaseSequence st \<noteq> []"
  shows "reshuffle p st =
     st\<lparr>gateSpeedSequence := shuffleArray (random p) (randomCalls st) (gateBaseSequence st),
        gateSequenceIndex := 0,
        randomCalls := randomCalls st + (length (gateBaseSequence st) - 1)\<rparr>"
  using assms by (simp add: reshuffle_def)

lemma reshuffle_ignores_cursor:
  assumes "gateRandomEnabled st" and "gateBaseSequence st \<noteq> []"
  shows "reshuffle p (st\<lparr>gateSequenceIndex := i\<rparr>) = reshuffle p st"
  using assms by (simp add: reshuffle_def)

lemma scheduleNextGateCycle_random_runs:
  assumes "gateAmount st \<noteq> 0" and "gateSpeedSequence st \<noteq> []"
    and "gateRandomEnabled st" and "gateBaseSequence st \<noteq> []"
    and "getNoteDuration (shuffleArray (random p) (randomCalls st) (gateBaseSequence st) ! 0)
           (currentBpm st) = Finite d"
    and "0 < d" and "2 \<le> curveLength d (sampleRate p)"
  shows "fst (scheduleNextGateCycle p st) = Inr ()"
    and "gainCurve (snd (scheduleNextGateCycle p st))
           = Some (gateCurve d (sampleRate p) (gateAmount st / 100), d)"
    and "timers (snd (scheduleNextGateCycle p st)) = timers st @ [(Suc (timerCount st), d * 1000)]"
    and "gateSpeedSequence (snd (scheduleNextGateCycle p st))
           = shuffleArray (random p) (randomCalls st) (gateBaseSequence st)"
proof -
  let ?s = "shuffleArray (random p) (randomCalls st) (gateBaseSequence st)"
  define st1 where "st1 = reshuffle p st"
  have r: "st1 = st\<lparr>gateSpeedSequence := ?s, gateSequenceIndex := 0,
        randomCalls := randomCalls st + (length (gateBaseSequence st) - 1)\<rparr>"
    unfolding st1_def by (rule reshuffle_random [OF assms(3,4)])
  have ne: "0 < length ?s"
    using assms(4) by (simp add: length_shuffleArray)
  have cd: "cycleDuration st1 = Finite d"
    using ne assms(5) by (simp add: r cycleDuration_def currentNoteValue_def currentBpm_def)
  have s: "scheduleGateCycle p (Finite d) st1
      = (Inr (), st1\<lparr>gainCurve := Some (gateCurve d (sampleRate p) (gateAmount st1 / 100), d)\<rparr>)"
    using assms(6,7) by (simp add: scheduleGateCycle_def Let_def)
  have unf: "scheduleNextGateCycle p st =
      (case scheduleGateCycle p (cycleDuration st1) st1 of
              (Inl e, st2) \<Rightarrow> (Inl e, st2)
            | (Inr u, st2) \<Rightarrow>
                (let st3 = st2\<lparr>playingIndex :=
                              (if gateRandomEnabled st2 then
                                 (case currentNoteValue st2 of
                                    None \<Rightarrow> - 1
                                  | Some v \<Rightarrow> indexOf (gateBaseSequence st2) v)
                               else int (gateSequenceIndex st2))\<rparr>;
                     st4 = st3\<lparr>gateSequenceIndex :=
                              (gateSequenceIndex st3 + 1) mod length (gateSpeedSequence st3)\<rparr>;
                     delay = (case cycleDuration st1 of Finite d \<Rightarrow> d * 1000 | _ \<Rightarrow> 0);
                     (handle, st5) = setTimeout delay st4
                 in (Inr (), st5\<lparr>gateTimeout := Some handle\<rparr>)))"
    using assms(1,2) unfolding st1_def by (simp add: scheduleNextGateCycle_def Let_def)
  show "fst (scheduleNextGateCycle p st) = Inr ()"
    by (simp add: unf cd s Let_def setTimeout_def)
  show "gainCurve (snd (scheduleNextGateCycle p st))
           = Some (gateCurve d (sampleRate p) (gateAmount st / 100), d)"
    by (simp add: unf cd s Let_def setTimeout_def) (simp add: r)
  show "timers (snd (scheduleNextGateCycle p st)) = timers st @ [(Suc (timerCount st), d * 1000)]"
    by (simp add: unf cd s Let_def setTimeout_def) (simp add: r)
  show "gateSpeedSequence (snd (scheduleNextGateCycle p st)) = ?s"
    by (simp add: unf cd s Let_def setTimeout_def) (simp add: r)
qed

text \<open>
  Claim C9. In random mode with a non-empty base sequence, the reshuffle at the head of
  \<open>scheduleNextGateCycle\<close> replaces the working sequence by a fresh shuffle of the base
  sequence and puts the cursor at 0, so the token read, and the duration computed from it,
  are those of element 0 of that shuffle. The cursor value left by the previous cycle is
  overwritten: changing it changes neither the reshuffled state nor, when a cycle runs,
  the outcome of \<open>scheduleNextGateCycle\<close>. When the platform accepts the curve, the
  cycle that \<open>scheduleNextGateCycle\<close> schedules has the duration of that token.
\<close>

theorem random_mode_reads_fresh_shuffle:
  assumes "gateRandomEnabled st" and "gateBaseSequence st \<noteq> []"
  shows "gateSpeedSequence (reshuffle p st)
           = shuffleArray (random p) (randomCalls st) (gateBaseSequence st)
       \<and> gateSequenceIndex (reshuffle p st) = 0
       \<and> currentNoteValue (reshuffle p st)
           = Some (shuffleArray (random p) (randomCalls st) (gateBaseSequence st) ! 0)
       \<and> cycleDuration (reshuffle p st)
           = getNoteDuration (shuffleArray (random p) (randomCalls st) (gateBaseSequence st) ! 0)
               (currentBpm st)
       \<and> reshuffle p (st\<lparr>gateSequenceIndex := i\<rparr>) = reshuffle p st
       \<and> (gateAmount st \<noteq> 0 \<and> gateSpeedSequence st \<noteq> [] \<longrightarrow>
            scheduleNextGateCycle p (st\<lparr>gateSequenceIndex := i\<rparr>) = scheduleNextGateCycle p st)
       \<and> (\<forall>d. gateAmount st \<noteq> 0 \<and> gateSpeedSequence st \<noteq> []
              \<and> getNoteDuration
                   (shuffleArray (random p) (randomCalls st) (gateBaseSequence st) ! 0)
                   (currentBpm st) = Finite d
              \<and> 0 < d \<and> 2 \<le> curveLength d (sampleRate p) \<longrightarrow>
              fst (scheduleNextGateCycle p st) = Inr ()
            \<and> gateSpeedSequence (snd (scheduleNextGateCycle p st))
                = shuffleArray (random p) (randomCalls st) (gateBaseSequence st)
            \<and> gainCurve (snd (scheduleNextGateCycle p st))
                = Some (gateCurve d (sampleRate p) (gateAmount st / 100), d)
            \<and> timers (snd (scheduleNextGateCycle p st))
                = timers st @ [(Suc (timerCount st), d * 1000)])"
proof -
  let ?s = "shuffleArray (random p) (randomCalls st) (gateBaseSequence st)"
  have ne: "0 < length ?s"
    using assms(2) by (simp add: length_shuffleArray)
  have r: "reshuffle p st = st\<lparr>gateSpeedSequence := ?s, gateSequenceIndex := 0,
        randomCalls := randomCalls st + (length (gateBaseSequence st) - 1)\<rparr>"
    by (rule reshuffle_random [OF assms])
  have a: "gateSpeedSequence (reshuffle p st) = ?s" and b: "gateSequenceIndex (reshuffle p st) = 0"
    by (simp_all add: r)
  have c: "currentNoteValue (reshuffle p st) = Some (?s ! 0)"
    using ne by (simp add: r currentNoteValue_def)
  have bp: "currentBpm (reshuffle p st) = currentBpm st"
    by (simp add: r currentBpm_def)
  have d: "cycleDuration (reshuffle p st) = getNoteDuration (?s ! 0) (currentBpm st)"
    by (simp add: cycleDuration_def c bp)
  have e: "reshuffle p (st\<lparr>gateSequenceIndex := i\<rparr>) = reshuffle p st"
    by (rule reshuffle_ignores_cursor [OF assms])
  have f: "gateAmount st \<noteq> 0 \<and> gateSpeedSequence st \<noteq> [] \<longrightarrow>
            scheduleNextGateCycle p (st\<lparr>gateSequenceIndex := i\<rparr>) = scheduleNextGateCycle p st"
    by (simp add: scheduleNextGateCycle_def e)
  have h: "\<forall>d. gateAmount st \<noteq> 0 \<and> gateSpeedSequence st \<noteq> []
              \<and> getNoteDuration (?s ! 0) (currentBpm st) = Finite d
              \<and> 0 < d \<and> 2 \<le> curveLength d (sampleRate p) \<longrightarrow>
              fst (scheduleNextGateCycle p st) = Inr ()
            \<and> gateSpeedSequence (snd (scheduleNextGateCycle p st)) = ?s
            \<and> gainCurve (snd (scheduleNextGateCycle p st))
                = Some (gateCurve d (sampleRate p) (gateAmount st / 100), d)
            \<and> timers (snd (scheduleNextGateCycle p st))
                = timers st @ [(Suc (timerCount st), d * 1000)]"
  proof (intro allI impI)
    fix d
    assume k: "gateAmount st \<noteq> 0 \<and> gateSpeedSequence st \<noteq> []
              \<and> getNoteDuration (?s ! 0) (currentBpm st) = Finite d
              \<and> 0 < d \<and> 2 \<le> curveLength d (sampleRate p)"
    then have k1: "gateAmount st \<noteq> 0" and k2: "gateSpeedSequence st \<noteq> []"
      and k3: "getNoteDuration (?s ! 0) (currentBpm st) = Finite d"
      and k4: "0 < d" and k5: "2 \<le> curveLength d (sampleRate p)"
      by simp_all
    note R = scheduleNextGateCycle_random_runs [OF k1 k2 assms k3 k4 k5]
    from R(1) R(4) R(2) R(3)
    show "fst (scheduleNextGateCycle p st) = Inr ()
            \<and> gateSpeedSequence (snd (scheduleNextGateCycle p st)) = ?s
            \<and> gainCurve (snd (scheduleNextGateCycle p st))
                = Some (gateCurve d (sampleRate p) (gateAmount st / 100), d)
            \<and> timers (snd (scheduleNextGateCycle p st))
                = timers st @ [(Suc (timerCount st), d * 1000)]"
      by (intro conjI)
  qed
  from a b c d e f h show ?thesis by (intro conjI)
qed

lemma example_shuffle:
  "shuffleArray (\<lambda>n. 0) 0 [Str ''8'', Str ''4T'', Str ''2''] = [Str ''4T'', Str ''2'', Str ''8'']"
  by code_simp

text \<open>
  A gate in random mode with the cursor at 1: the cycle reads \<open>"4T"\<close>, element 0 of the
  shuffle, and lasts a third of a second at 120 beats per minute.
\<close>

theorem random_mode_reads_fresh_shuffle_witness:
  "gateRandomEnabled randomGate \<and> gateBaseSequence randomGate \<noteq> []
   \<and> gateSequenceIndex randomGate = 1
   \<and> gateAmount randomGate \<noteq> 0 \<and> gateSpeedSequence randomGate \<noteq> []
   \<and> currentNoteValue (reshuffle (examplePlatform\<lparr>random := (\<lambda>n. 0)\<rparr>) randomGate)
       = Some (Str ''4T'')
   \<and> cycleDuration (reshuffle (examplePlatform\<lparr>random := (\<lambda>n. 0)\<rparr>) randomGate)
       = Finite (1 / 3)
   \<and> (0 :: real) < 1 / 3
   \<and> 2 \<le> curveLength (1 / 3) (sampleRate (examplePlatform\<lparr>random := (\<lambda>n. 0)\<rparr>))
   \<and> gateSpeedSequence (snd (scheduleNextGateCycle (examplePlatform\<lparr>random := (\<lambda>n. 0)\<rparr>)
         randomGate)) = [Str ''4T'', Str ''2'', Str ''8'']
   \<and> timers (snd (scheduleNextGateCycle (examplePlatform\<lparr>random := (\<lambda>n. 0)\<rparr>) randomGate))
       = [(1, 1000 / 3)]"
proof -
  let ?p = "examplePlatform\<lparr>random := (\<lambda>n. 0)\<rparr>"
  have h1: "gateRandomEnabled randomGate" and h2: "gateBaseSequence randomGate \<noteq> []"
    and h3: "gateAmount randomGate \<noteq> 0" and h4: "gateSpeedSequence randomGate \<noteq> []"
    and h5: "gateSequenceIndex randomGate = 1"
    by (simp_all add: randomGate_def)
  have s: "shuffleArray (random ?p) (randomCalls randomGate)
      (gateBaseSequence randomGate) = [Str ''4T'', Str ''2'', Str ''8'']"
    by (simp add: randomGate_def initialGate_def example_shuffle)
  have b: "currentBpm randomGate = 120"
    by (simp add: currentBpm_def randomGate_def initialGate_def)
  have d: "getNoteDuration (Str ''4T'') 120 = Finite (1 / 3)"
    using getNoteDuration_triplets(2) [of 120] by simp
  have d': "getNoteDuration
      (shuffleArray (random ?p) (randomCalls randomGate) (gateBaseSequence randomGate) ! 0)
      (currentBpm randomGate) = Finite (1 / 3)"
    unfolding s b using d by simp
  have h6: "(0 :: real) < 1 / 3" by simp
  have h7: "2 \<le> curveLength (1 / 3) (sampleRate ?p)"
    by (simp add: curveLength_def examplePlatform_def)
  note T = random_mode_reads_fresh_shuffle [OF h1 h2, of ?p 0]
  have t3: "currentNoteValue (reshuffle ?p randomGate) = Some (Str ''4T'')"
    using T [THEN conjunct2, THEN conjunct2, THEN conjunct1] unfolding s by simp
  have t4: "cycleDuration (reshuffle ?p randomGate) = Finite (1 / 3)"
    using T [THEN conjunct2, THEN conjunct2, THEN conjunct2, THEN conjunct1] unfolding s b
    by (simp add: d)
  from T have "\<forall>d. gateAmount randomGate \<noteq> 0 \<and> gateSpeedSequence randomGate \<noteq> []
              \<and> getNoteDuration
                   (shuffleArray (random ?p) (randomCalls randomGate) (gateBaseSequence randomGate) ! 0)
                   (currentBpm randomGate) = Finite d
              \<and> 0 < d \<and> 2 \<le> curveLength d (sampleRate ?p) \<longrightarrow>
              fst (scheduleNextGateCycle ?p randomGate) = Inr ()
            \<and> gateSpeedSequence (snd (scheduleNextGateCycle ?p randomGate))
                = shuffleArray (random ?p) (randomCalls randomGate) (gateBaseSequence randomGate)
            \<and> gainCurve (snd (scheduleNextGateCycle ?p randomGate))
                = Some (gateCurve d (sampleRate ?p) (gateAmount randomGate / 100), d)
            \<and> timers (snd (scheduleNextGateCycle ?p randomGate))
                = timers randomGate @ [(Suc (timerCount randomGate), d * 1000)]"
    by (elim conjE)
  from this [rule_format, OF conjI [OF h3 conjI [OF h4 conjI [OF d' conjI [OF h6 h7]]]]]
  have t5: "gateSpeedSequence (snd (scheduleNextGateCycle ?p randomGate)) = [Str ''4T'', Str ''2'', Str ''8'']"
    and t6: "timers (snd (scheduleNextGateCycle ?p randomGate)) = [(1, 1000 / 3)]"
    unfolding s by (simp_all add: randomGate_def initialGate_def)
  from h1 h2 h5 h3 h4 t3 t4 h6 h7 t5 t6 show ?thesis by (intro conjI)
qed

end
